theory Spec2Isabelle
  imports Complex_Main
begin

section \<open>Python values and exceptions\<close>

text \<open>
  The module \<^verbatim>\<open>fiftyone/utils/torch.py\<close> is Python 3 over numpy arrays. The floating
  point numbers that the code receives (coordinates, scores, logits) are finite and are
  modelled by the reals they denote, Python integers by \<^typ>\<open>int\<close>, Python lists and numpy
  arrays by HOL lists, and every exception the code can raise is a value \<open>Inl e\<close> of the
  result type \<open>error + 'a\<close>. Arithmetic on coordinates is exact. The classifier's softmax,
  whose exponentials leave the range of the array's format, is computed on floating-point
  values with infinities and NaN (section \<open>Floating-point values\<close>).
\<close>

datatype error =
    ValueError string
  | IndexError
  | ZeroDivisionError

text \<open>Subscripting a Python list, \<^verbatim>\<open>xs[i]\<close>: positions \<open>0 \<le> i < n\<close> are read directly,
  positions \<open>- n \<le> i < 0\<close> are read from the end, anything else raises \<^verbatim>\<open>IndexError\<close>.\<close>

definition py_index :: "'a list \<Rightarrow> int \<Rightarrow> error + 'a" where
  "py_index xs i =
     (if 0 \<le> i \<and> i < int (length xs) then Inr (xs ! nat i)
      else if - int (length xs) \<le> i \<and> i < 0 then Inr (xs ! nat (int (length xs) + i))
      else Inl IndexError)"

text \<open>Python's \<^verbatim>\<open>xs[a:b]\<close>: negative bounds count from the end, and bounds are clipped
  to the sequence, so a slice never raises.\<close>

definition slice_bound :: "nat \<Rightarrow> int \<Rightarrow> nat" where
  "slice_bound n i = (if i < 0 then nat (max 0 (int n + i)) else min (nat i) n)"

definition py_slice :: "int \<Rightarrow> int \<Rightarrow> 'a list \<Rightarrow> 'a list" where
  "py_slice a b xs =
     (let lo = slice_bound (length xs) a; hi = slice_bound (length xs) b
      in take (hi - lo) (drop lo xs))"

text \<open>Python 3's \<^verbatim>\<open>round(x)\<close> (and numpy's) rounds to the nearest integer, a tie going
  to the even neighbour.\<close>

definition py_round :: "real \<Rightarrow> int" where
  "py_round x =
     (let f = \<lfloor>x\<rfloor>; d = x - of_int f
      in if d < 1 / 2 then f
         else if 1 / 2 < d then f + 1
         else if even f then f else f + 1)"

text \<open>Python's true division \<^verbatim>\<open>a / b\<close> of two integers.\<close>

definition py_truediv :: "int \<Rightarrow> int \<Rightarrow> error + real" where
  "py_truediv a b = (if b = 0 then Inl ZeroDivisionError else Inr (of_int a / of_int b))"


section \<open>Floating-point values\<close>

text \<open>
  A value of a numpy floating-point array: a finite number, an infinity or NaN. A format
  (\<^verbatim>\<open>float32\<close>, or \<^verbatim>\<open>float16\<close> under half precision) is given by two thresholds: a result
  whose magnitude reaches \<open>overflow\<close> rounds to an infinity, a result whose magnitude does
  not exceed \<open>underflow\<close> rounds to zero. A result in between is kept as the real number
  it is: rounding to the nearest representable value is not modelled, and neither is the
  sign of zero.
\<close>

datatype fval = Fin real | PInf | NInf | NaN

record float_format =
  overflow :: real
  underflow :: real

text \<open>IEEE binary32 and binary16 with rounding to nearest: the largest finite values are
  \<open>2^128 - 2^104\<close> and \<open>65504\<close>, the smallest positive ones \<open>2^-149\<close> and \<open>2^-24\<close>; the
  thresholds lie half a unit in the last place beyond them.\<close>

definition float32 :: float_format where
  "float32 = \<lparr> overflow = 2 ^ 128 - 2 ^ 103, underflow = 1 / 2 ^ 150 \<rparr>"

definition float16 :: float_format where
  "float16 = \<lparr> overflow = 65520, underflow = 1 / 2 ^ 25 \<rparr>"

definition fround :: "float_format \<Rightarrow> real \<Rightarrow> fval" where
  "fround fmt x =
     (if overflow fmt \<le> x then PInf
      else if x \<le> - overflow fmt then NInf
      else if \<bar>x\<bar> \<le> underflow fmt then Fin 0
      else Fin x)"

text \<open>\<^verbatim>\<open>np.exp\<close> of a finite entry.\<close>

definition fexp :: "float_format \<Rightarrow> real \<Rightarrow> fval" where
  "fexp fmt x = fround fmt (exp x)"

text \<open>Addition and division of array entries; earlier equations win.\<close>

fun fadd :: "float_format \<Rightarrow> fval \<Rightarrow> fval \<Rightarrow> fval" where
  "fadd fmt (Fin x) (Fin y) = fround fmt (x + y)"
| "fadd fmt NaN b = NaN"
| "fadd fmt a NaN = NaN"
| "fadd fmt PInf NInf = NaN"
| "fadd fmt NInf PInf = NaN"
| "fadd fmt PInf b = PInf"
| "fadd fmt a PInf = PInf"
| "fadd fmt NInf b = NInf"
| "fadd fmt a NInf = NInf"

fun fdiv :: "float_format \<Rightarrow> fval \<Rightarrow> fval \<Rightarrow> fval" where
  "fdiv fmt (Fin x) (Fin y) =
     (if y = 0 then (if x = 0 then NaN else if 0 < x then PInf else NInf)
      else fround fmt (x / y))"
| "fdiv fmt NaN b = NaN"
| "fdiv fmt a NaN = NaN"
| "fdiv fmt (Fin x) b = Fin 0"
| "fdiv fmt PInf (Fin y) = (if 0 \<le> y then PInf else NInf)"
| "fdiv fmt NInf (Fin y) = (if 0 \<le> y then NInf else PInf)"
| "fdiv fmt a b = NaN"

text \<open>The order of the values other than NaN, the maximum that \<^verbatim>\<open>np.max\<close> takes of two
  entries (NaN if either is), and the comparison \<^verbatim>\<open>score < thresh\<close> of an entry with a
  Python float, which is false for NaN.\<close>

fun fle :: "fval \<Rightarrow> fval \<Rightarrow> bool" where
  "fle (Fin x) (Fin y) = (x \<le> y)"
| "fle NInf b = True"
| "fle a PInf = True"
| "fle a b = False"

definition fmax2 :: "fval \<Rightarrow> fval \<Rightarrow> fval" where
  "fmax2 a b = (if a = NaN \<or> b = NaN then NaN else if fle a b then b else a)"

fun fless :: "fval \<Rightarrow> real \<Rightarrow> bool" where
  "fless (Fin x) t = (x < t)"
| "fless NInf t = True"
| "fless PInf t = False"
| "fless NaN t = False"


section \<open>The minimum-size resize transform\<close>

text \<open>
  An image is either a PIL image, whose \<^verbatim>\<open>size\<close> is \<open>(width, height)\<close>, or a torch
  tensor, whose \<^verbatim>\<open>size()\<close> is its shape; dimensions are natural numbers and \<open>'p\<close> is
  the pixel data.
\<close>

datatype 'p image =
    PIL "nat \<times> nat" 'p
  | Tensor "nat list" 'p

text \<open>The constructor argument \<^verbatim>\<open>min_output_size\<close> is a single \<^verbatim>\<open>int\<close> or a sequence.\<close>

datatype min_size_arg = Dim int | Size "int list"

record 'i MinResize =
  min_output_size :: "int list"
  interpolation :: "'i option"

definition MinResize_init :: "min_size_arg \<Rightarrow> 'i option \<Rightarrow> 'i MinResize" where
  "MinResize_init arg interp =
     \<lparr> min_output_size = (case arg of Dim d \<Rightarrow> [d, d] | Size ms \<Rightarrow> ms),
       interpolation = interp \<rparr>"

text \<open>The \<open>(h, w)\<close> that \<^verbatim>\<open>__call__\<close> reads: the last two entries of a tensor's shape
  (unpacking fewer than two raises \<^verbatim>\<open>ValueError\<close>), or the swapped size of a PIL image.\<close>

definition image_hw :: "'p image \<Rightarrow> error + (int \<times> int)" where
  "image_hw img =
     (case img of
        Tensor shape _ \<Rightarrow>
          (case py_slice (- 2) (int (length shape)) shape of
             [h, w] \<Rightarrow> Inr (int h, int w)
           | _ \<Rightarrow> Inl (ValueError ''not enough values to unpack''))
      | PIL (w, h) _ \<Rightarrow> Inr (int h, int w))"

text \<open>
  \<^verbatim>\<open>MinResize.__call__\<close>. The resampling routine \<^verbatim>\<open>F.resize\<close> belongs to torchvision; it
  is the parameter \<open>resize\<close>, called with the image, the target \<open>(height, width)\<close> and the
  optional interpolation mode.
\<close>

definition MinResize_call ::
  "('p image \<Rightarrow> int \<times> int \<Rightarrow> 'i option \<Rightarrow> error + 'p image) \<Rightarrow>
   'i MinResize \<Rightarrow> 'p image \<Rightarrow> error + 'p image" where
  "MinResize_call resize self img =
     (case image_hw img of
        Inl e \<Rightarrow> Inl e
      | Inr (h, w) \<Rightarrow>
          (case min_output_size self of
             [minh, minw] \<Rightarrow>
             if h \<ge> minh \<and> w \<ge> minw then Inr img
             else
               (case py_truediv minh h of
                  Inl e \<Rightarrow> Inl e
                | Inr ah \<Rightarrow>
                    (case py_truediv minw w of
                       Inl e \<Rightarrow> Inl e
                     | Inr aw \<Rightarrow>
                         (let alpha = max ah aw;
                              sz = (py_round (alpha * of_int h), py_round (alpha * of_int w))
                          in resize img sz (interpolation self))))
           | _ \<Rightarrow> Inl (ValueError ''wrong number of values to unpack'')))"

text \<open>Applying the transform to the result of a first application.\<close>

definition MinResize_twice ::
  "('p image \<Rightarrow> int \<times> int \<Rightarrow> 'i option \<Rightarrow> error + 'p image) \<Rightarrow>
   'i MinResize \<Rightarrow> 'p image \<Rightarrow> error + 'p image" where
  "MinResize_twice resize self img =
     (case MinResize_call resize self img of
        Inl e \<Rightarrow> Inl e
      | Inr img' \<Rightarrow> MinResize_call resize self img')"

text \<open>What the transform relies on from \<^verbatim>\<open>F.resize\<close>: when it returns, the image it
  returns has the requested \<open>(height, width)\<close>.\<close>

definition resize_contract ::
  "('p image \<Rightarrow> int \<times> int \<Rightarrow> 'i option \<Rightarrow> error + 'p image) \<Rightarrow> bool" where
  "resize_contract resize \<longleftrightarrow>
     (\<forall>img sz k img'. resize img sz k = Inr img' \<longrightarrow> image_hw img' = Inr sz)"

text \<open>A resampling routine for PIL images that keeps the pixel data and sets the size; it
  serves as a concrete instance of the parameter.\<close>

definition pil_resize :: "'p image \<Rightarrow> int \<times> int \<Rightarrow> 'i option \<Rightarrow> error + 'p image" where
  "pil_resize img sz k =
     (case img of
        PIL _ p \<Rightarrow>
          if 0 \<le> fst sz \<and> 0 \<le> snd sz then Inr (PIL (nat (snd sz), nat (fst sz)) p)
          else Inl (ValueError ''height and width must be >= 0'')
      | Tensor _ _ \<Rightarrow> Inl (ValueError ''img should be PIL Image''))"


section \<open>Labels\<close>

text \<open>
  The label classes of \<^verbatim>\<open>fiftyone.core.labels\<close> that the processors build, with the fields
  they set. Field names carry a prefix where two classes share a name (\<^verbatim>\<open>label\<close>,
  \<^verbatim>\<open>confidence\<close>, \<^verbatim>\<open>points\<close>, \<^verbatim>\<open>mask\<close>).
\<close>

record Classification =
  cls_label :: string
  cls_confidence :: fval

record Detection =
  det_label :: string
  bounding_box :: "real list"
  mask :: "bool list list option"
  det_confidence :: real

record Keypoint =
  kp_label :: string
  kp_points :: "(real \<times> real) list"
  kp_confidence :: real

record Polyline =
  pl_points :: "(real \<times> real) list list"
  pl_confidence :: real
  closed :: bool
  filled :: bool

record Segmentation =
  seg_mask :: "nat list list"

datatype Label =
    Detections "Detection list"
  | Keypoints "Keypoint list"
  | Polylines "Polyline list"


section \<open>Output processors\<close>

record OutputProcessor =
  class_labels :: "string list"
  confidence_thresh :: "real option"

record InstanceSegmenterOutputProcessor = OutputProcessor +
  mask_thresh :: real

record KeypointDetectorOutputProcessor = OutputProcessor +
  edges :: "int list list option"

text \<open>The constructors; an optional keyword argument that is not passed is \<open>None\<close>.\<close>

definition ClassifierOutputProcessor_init :: "string list \<Rightarrow> real option \<Rightarrow> OutputProcessor" where
  "ClassifierOutputProcessor_init cl ct = \<lparr> class_labels = cl, confidence_thresh = ct \<rparr>"

definition DetectorOutputProcessor_init :: "string list \<Rightarrow> real option \<Rightarrow> OutputProcessor" where
  "DetectorOutputProcessor_init cl ct = \<lparr> class_labels = cl, confidence_thresh = ct \<rparr>"

definition InstanceSegmenterOutputProcessor_init ::
  "string list \<Rightarrow> real option \<Rightarrow> real option \<Rightarrow> InstanceSegmenterOutputProcessor" where
  "InstanceSegmenterOutputProcessor_init cl ct mt =
     \<lparr> class_labels = cl, confidence_thresh = ct,
       mask_thresh = (case mt of None \<Rightarrow> 0.5 | Some t \<Rightarrow> t) \<rparr>"

definition KeypointDetectorOutputProcessor_init ::
  "string list \<Rightarrow> int list list option \<Rightarrow> real option \<Rightarrow> KeypointDetectorOutputProcessor" where
  "KeypointDetectorOutputProcessor_init cl es ct =
     \<lparr> class_labels = cl, confidence_thresh = ct, edges = es \<rparr>"

text \<open>The test \<^verbatim>\<open>self.confidence_thresh is not None and score < self.confidence_thresh\<close>.\<close>

definition below_thresh :: "real option \<Rightarrow> real \<Rightarrow> bool" where
  "below_thresh ct score = (case ct of None \<Rightarrow> False | Some t \<Rightarrow> score < t)"

text \<open>A list comprehension whose element expression can raise: the first exception ends it.\<close>

fun mapM :: "('a \<Rightarrow> error + 'b) \<Rightarrow> 'a list \<Rightarrow> error + 'b list" where
  "mapM f [] = Inr []"
| "mapM f (x # xs) =
     (case f x of
        Inl e \<Rightarrow> Inl e
      | Inr y \<Rightarrow> (case mapM f xs of Inl e \<Rightarrow> Inl e | Inr ys \<Rightarrow> Inr (y # ys)))"


subsection \<open>numpy reductions\<close>

text \<open>\<^verbatim>\<open>np.argmax\<close> along an axis: the index of the first occurrence of the maximum; an
  axis of length 0 raises \<^verbatim>\<open>ValueError\<close>. \<open>argmax_from xs i best bv\<close> scans \<open>xs\<close>, whose
  first entry has index \<open>i\<close>, with the best index and value so far.\<close>

fun argmax_from :: "real list \<Rightarrow> nat \<Rightarrow> nat \<Rightarrow> real \<Rightarrow> nat" where
  "argmax_from [] i best bv = best"
| "argmax_from (x # xs) i best bv =
     (if bv < x then argmax_from xs (Suc i) i x else argmax_from xs (Suc i) best bv)"

definition np_argmax :: "real list \<Rightarrow> error + nat" where
  "np_argmax xs =
     (case xs of
        [] \<Rightarrow> Inl (ValueError ''attempt to get argmax of an empty sequence'')
      | x # rest \<Rightarrow> Inr (argmax_from rest 1 0 x))"

text \<open>What \<^verbatim>\<open>np.argmax\<close> is documented to return: \<open>a\<close> is the first position at which \<open>xs\<close>
  takes its maximum.\<close>

definition first_max :: "real list \<Rightarrow> nat \<Rightarrow> bool" where
  "first_max xs a \<longleftrightarrow>
     a < length xs \<and> (\<forall>j < length xs. xs ! j \<le> xs ! a) \<and> (\<forall>j < a. xs ! j < xs ! a)"

text \<open>\<^verbatim>\<open>np.sum\<close> and \<^verbatim>\<open>np.max\<close> along an axis of a floating-point array.\<close>

definition np_sum :: "float_format \<Rightarrow> fval list \<Rightarrow> fval" where
  "np_sum fmt xs = foldl (fadd fmt) (Fin 0) xs"

definition np_max :: "fval list \<Rightarrow> error + fval" where
  "np_max xs =
     (case xs of
        [] \<Rightarrow> Inl (ValueError ''zero-size array to reduction operation maximum which has no identity'')
      | x # rest \<Rightarrow> Inr (fold fmax2 rest x))"


subsection \<open>Classifier\<close>

text \<open>The test \<^verbatim>\<open>self.confidence_thresh is not None and score < self.confidence_thresh\<close> on
  a computed score.\<close>

definition fbelow_thresh :: "real option \<Rightarrow> fval \<Rightarrow> bool" where
  "fbelow_thresh ct score = (case ct of None \<Rightarrow> False | Some t \<Rightarrow> fless score t)"

text \<open>
  \<^verbatim>\<open>ClassifierOutputProcessor.__call__\<close> on the \<open>[N, M]\<close> logits, a list of \<open>N\<close> rows of finite
  entries, with \<open>fmt\<close> the format of the array. The loop appends to \<^verbatim>\<open>preds\<close>, the last
  argument of \<open>Classifier_loop\<close>.
\<close>

fun Classifier_loop ::
  "OutputProcessor \<Rightarrow> (nat \<times> fval) list \<Rightarrow> Classification option list \<Rightarrow>
   error + Classification option list" where
  "Classifier_loop self [] preds = Inr preds"
| "Classifier_loop self ((prediction, score) # rest) preds =
     (if fbelow_thresh (confidence_thresh self) score
      then Classifier_loop self rest (preds @ [None])
      else
        (case py_index (class_labels self) (int prediction) of
           Inl e \<Rightarrow> Inl e
         | Inr l \<Rightarrow>
             Classifier_loop self rest
               (preds @ [Some \<lparr> cls_label = l, cls_confidence = score \<rparr>])))"

definition ClassifierOutputProcessor_call ::
  "float_format \<Rightarrow> OutputProcessor \<Rightarrow> real list list \<Rightarrow> int \<times> int \<Rightarrow>
   error + Classification option list" where
  "ClassifierOutputProcessor_call fmt self logits frame_size =
     (case mapM np_argmax logits of
        Inl e \<Rightarrow> Inl e
      | Inr predictions \<Rightarrow>
          (let odds = map (map (fexp fmt)) logits;
               odds = map (\<lambda>row. map (\<lambda>v. fdiv fmt v (np_sum fmt row)) row) odds
           in case mapM np_max odds of
                Inl e \<Rightarrow> Inl e
              | Inr scores \<Rightarrow> Classifier_loop self (zip predictions scores) []))"

text \<open>Row \<open>i\<close> of \<^verbatim>\<open>odds\<close> after the two statements that compute it, as a function of row
  \<open>i\<close> of the logits.\<close>

definition softmax_row :: "float_format \<Rightarrow> real list \<Rightarrow> fval list" where
  "softmax_row fmt row =
     map (\<lambda>v. fdiv fmt v (np_sum fmt (map (fexp fmt) row))) (map (fexp fmt) row)"


subsection \<open>Detection family\<close>

text \<open>
  The per-image model output: parallel arrays of boxes \<open>(x1, y1, x2, y2)\<close>, labels and
  scores, and for the instance segmenter and the keypoint detector the masks
  \<open>[N, 1, H, W]\<close> or the keypoints \<open>[N, K, ...]\<close>.
\<close>

record detector_output =
  boxes :: "(real \<times> real \<times> real \<times> real) list"
  labels :: "int list"
  scores :: "real list"

record segmenter_output = detector_output +
  masks :: "real list list list list"

record keypoint_output = detector_output +
  keypoints :: "real list list list"

text \<open>The bounding box that each of the three \<^verbatim>\<open>_parse_detections\<close> builds from a box and
  the frame size (the source writes the expression out in each of them).\<close>

definition normalize_box :: "real \<times> real \<times> real \<times> real \<Rightarrow> int \<Rightarrow> int \<Rightarrow> real list" where
  "normalize_box box width height =
     (case box of (x1, y1, x2, y2) \<Rightarrow>
        [x1 / of_int width, y1 / of_int height,
         (x2 - x1) / of_int width, (y2 - y1) / of_int height])"

fun Detector_loop ::
  "OutputProcessor \<Rightarrow> int \<times> int \<Rightarrow> ((real \<times> real \<times> real \<times> real) \<times> int \<times> real) list \<Rightarrow>
   Detection list \<Rightarrow> error + Detection list" where
  "Detector_loop self fs [] detections = Inr detections"
| "Detector_loop self fs ((box, label, score) # rest) detections =
     (if below_thresh (confidence_thresh self) score
      then Detector_loop self fs rest detections
      else
        (let bbox = normalize_box box (fst fs) (snd fs)
         in case py_index (class_labels self) label of
              Inl e \<Rightarrow> Inl e
            | Inr l \<Rightarrow>
                Detector_loop self fs rest
                  (detections @
                   [\<lparr> det_label = l, bounding_box = bbox, mask = None,
                      det_confidence = score \<rparr>])))"

definition DetectorOutputProcessor_parse_detections ::
  "OutputProcessor \<Rightarrow> detector_output \<Rightarrow> int \<times> int \<Rightarrow> error + Label" where
  "DetectorOutputProcessor_parse_detections self output frame_size =
     (case Detector_loop self frame_size
             (zip (boxes output) (zip (labels output) (scores output))) [] of
        Inl e \<Rightarrow> Inl e
      | Inr detections \<Rightarrow> Inr (Detections detections))"

definition DetectorOutputProcessor_call ::
  "OutputProcessor \<Rightarrow> detector_output list \<Rightarrow> int \<times> int \<Rightarrow> error + Label list" where
  "DetectorOutputProcessor_call self output frame_size =
     mapM (\<lambda>img_output. DetectorOutputProcessor_parse_detections self img_output frame_size) output"

text \<open>\<^verbatim>\<open>np.squeeze(a, axis=0)\<close> raises unless axis 0 has length 1.\<close>

definition np_squeeze0 :: "'a list \<Rightarrow> error + 'a" where
  "np_squeeze0 a =
     (case a of
        [x] \<Rightarrow> Inr x
      | _ \<Rightarrow> Inl (ValueError ''cannot select an axis to squeeze out which has size not equal to one''))"

text \<open>The two-dimensional slice \<^verbatim>\<open>a[r1:r2, c1:c2]\<close>.\<close>

definition crop :: "int \<Rightarrow> int \<Rightarrow> int \<Rightarrow> int \<Rightarrow> 'a list list \<Rightarrow> 'a list list" where
  "crop r1 r2 c1 c2 a = map (py_slice c1 c2) (py_slice r1 r2 a)"

fun InstanceSegmenter_loop ::
  "InstanceSegmenterOutputProcessor \<Rightarrow> int \<times> int \<Rightarrow>
   ((real \<times> real \<times> real \<times> real) \<times> int \<times> real \<times> real list list list) list \<Rightarrow>
   Detection list \<Rightarrow> error + Detection list" where
  "InstanceSegmenter_loop self fs [] detections = Inr detections"
| "InstanceSegmenter_loop self fs ((box, label, score, soft_mask) # rest) detections =
     (if below_thresh (confidence_thresh self) score
      then InstanceSegmenter_loop self fs rest detections
      else
        (case box of (x1, y1, x2, y2) \<Rightarrow>
           (let bbox = normalize_box box (fst fs) (snd fs)
            in case np_squeeze0 soft_mask of
                 Inl e \<Rightarrow> Inl e
               | Inr sq \<Rightarrow>
                   (let cropped = crop (py_round y1) (py_round y2) (py_round x1) (py_round x2) sq;
                        bmask = map (map (\<lambda>v. v > mask_thresh self)) cropped
                    in case py_index (class_labels self) label of
                         Inl e \<Rightarrow> Inl e
                       | Inr l \<Rightarrow>
                           InstanceSegmenter_loop self fs rest
                             (detections @
                              [\<lparr> det_label = l, bounding_box = bbox, mask = Some bmask,
                                 det_confidence = score \<rparr>])))))"

definition InstanceSegmenterOutputProcessor_parse_detections ::
  "InstanceSegmenterOutputProcessor \<Rightarrow> segmenter_output \<Rightarrow> int \<times> int \<Rightarrow> error + Label" where
  "InstanceSegmenterOutputProcessor_parse_detections self output frame_size =
     (case InstanceSegmenter_loop self frame_size
             (zip (boxes output) (zip (labels output) (zip (scores output) (masks output)))) [] of
        Inl e \<Rightarrow> Inl e
      | Inr detections \<Rightarrow> Inr (Detections detections))"

definition InstanceSegmenterOutputProcessor_call ::
  "InstanceSegmenterOutputProcessor \<Rightarrow> segmenter_output list \<Rightarrow> int \<times> int \<Rightarrow>
   error + Label list" where
  "InstanceSegmenterOutputProcessor_call self output frame_size =
     mapM (\<lambda>img_output. InstanceSegmenterOutputProcessor_parse_detections self img_output frame_size) output"

text \<open>The normalized point \<^verbatim>\<open>(p[0] / width, p[1] / height)\<close> of a keypoint row.\<close>

definition normalize_point :: "int \<Rightarrow> int \<Rightarrow> real list \<Rightarrow> error + (real \<times> real)" where
  "normalize_point width height p =
     (case py_index p 0 of
        Inl e \<Rightarrow> Inl e
      | Inr px \<Rightarrow>
          (case py_index p 1 of
             Inl e \<Rightarrow> Inl e
           | Inr py \<Rightarrow> Inr (px / of_int width, py / of_int height)))"

text \<open>The loop of the keypoint detector carries the three lists \<^verbatim>\<open>_detections\<close>,
  \<^verbatim>\<open>_keypoints\<close> and \<^verbatim>\<open>_polylines\<close>.\<close>

fun KeypointDetector_loop ::
  "KeypointDetectorOutputProcessor \<Rightarrow> int \<times> int \<Rightarrow>
   ((real \<times> real \<times> real \<times> real) \<times> int \<times> real \<times> real list list) list \<Rightarrow>
   Detection list \<times> Keypoint list \<times> Polyline list \<Rightarrow>
   error + (Detection list \<times> Keypoint list \<times> Polyline list)" where
  "KeypointDetector_loop self fs [] acc = Inr acc"
| "KeypointDetector_loop self fs ((box, label, score, kpts) # rest) (ds, ks, ps) =
     (if below_thresh (confidence_thresh self) score
      then KeypointDetector_loop self fs rest (ds, ks, ps)
      else
        (let bbox = normalize_box box (fst fs) (snd fs)
         in case mapM (normalize_point (fst fs) (snd fs)) kpts of
              Inl e \<Rightarrow> Inl e
            | Inr points \<Rightarrow>
                (case py_index (class_labels self) label of
                   Inl e \<Rightarrow> Inl e
                 | Inr l \<Rightarrow>
                     (let ds' = ds @ [\<lparr> det_label = l, bounding_box = bbox,
                                         mask = None, det_confidence = score \<rparr>];
                          ks' = ks @ [\<lparr> kp_label = l, kp_points = points,
                                         kp_confidence = score \<rparr>]
                      in case edges self of
                           None \<Rightarrow> KeypointDetector_loop self fs rest (ds', ks', ps)
                         | Some es \<Rightarrow>
                             (case mapM (mapM (py_index points)) es of
                                Inl e \<Rightarrow> Inl e
                              | Inr pts \<Rightarrow>
                                  KeypointDetector_loop self fs rest
                                    (ds', ks',
                                     ps @ [\<lparr> pl_points = pts, pl_confidence = score,
                                             closed = False, filled = False \<rparr>]))))))"

text \<open>The dict that \<^verbatim>\<open>_parse_detections\<close> returns, as the list of its items in insertion
  order.\<close>

definition KeypointDetectorOutputProcessor_parse_detections ::
  "KeypointDetectorOutputProcessor \<Rightarrow> keypoint_output \<Rightarrow> int \<times> int \<Rightarrow>
   error + (string \<times> Label) list" where
  "KeypointDetectorOutputProcessor_parse_detections self output frame_size =
     (case KeypointDetector_loop self frame_size
             (zip (boxes output) (zip (labels output) (zip (scores output) (keypoints output))))
             ([], [], []) of
        Inl e \<Rightarrow> Inl e
      | Inr (ds, ks, ps) \<Rightarrow>
          (let label = [(''detections'', Detections ds), (''keypoints'', Keypoints ks)]
           in if edges self \<noteq> None then Inr (label @ [(''polylines'', Polylines ps)])
              else Inr label))"

definition KeypointDetectorOutputProcessor_call ::
  "KeypointDetectorOutputProcessor \<Rightarrow> keypoint_output list \<Rightarrow> int \<times> int \<Rightarrow>
   error + (string \<times> Label) list list" where
  "KeypointDetectorOutputProcessor_call self output frame_size =
     mapM (\<lambda>img_output. KeypointDetectorOutputProcessor_parse_detections self img_output frame_size) output"


subsection \<open>Semantic segmenter\<close>

text \<open>
  \<^verbatim>\<open>probs.argmax(axis=1)\<close> on \<open>[N, M, H, W]\<close>: for each image, a list of \<open>M\<close> class planes of
  \<open>H\<close> rows of \<open>W\<close> scores, the \<open>[H, W]\<close> array of the argmax over the planes at each pixel.
\<close>

definition argmax_classes :: "real list list list \<Rightarrow> error + nat list list" where
  "argmax_classes img =
     (case img of
        [] \<Rightarrow> Inl (ValueError ''attempt to get argmax of an empty sequence'')
      | c0 # _ \<Rightarrow>
          mapM (\<lambda>y. mapM (\<lambda>x. np_argmax (map (\<lambda>c. c ! y ! x) img)) [0..<length (c0 ! y)])
            [0..<length c0])"

definition SegmenterOutputProcessor_call ::
  "string list \<Rightarrow> real list list list list \<Rightarrow> int \<times> int \<Rightarrow> error + Segmentation list" where
  "SegmenterOutputProcessor_call class_labels_arg out frame_size =
     (case mapM argmax_classes out of
        Inl e \<Rightarrow> Inl e
      | Inr ms \<Rightarrow> Inr (map (\<lambda>m. \<lparr> seg_mask = m \<rparr>) ms))"


section \<open>Model construction\<close>

text \<open>The options of \<^verbatim>\<open>TorchModelConfig\<close>; an option that is absent is \<open>None\<close>.\<close>

record TorchModelConfig =
  entrypoint_fcn :: string
  output_processor_cls :: string
  labels_string :: "string option"
  labels_path :: "string option"
  use_half_precision :: "bool option"
  image_min_size :: "int list option"
  image_min_dim :: "int option"
  image_size :: "int list option"
  image_dim :: "int option"
  image_mean :: "real list option"
  image_std :: "real list option"

text \<open>Python's truth value of an optional string or array, and of an optional number.\<close>

definition truthy :: "'a list option \<Rightarrow> bool" where
  "truthy v = (case v of None \<Rightarrow> False | Some xs \<Rightarrow> xs \<noteq> [])"

definition truthy_num :: "int option \<Rightarrow> bool" where
  "truthy_num v = (case v of None \<Rightarrow> False | Some n \<Rightarrow> n \<noteq> 0)"

text \<open>\<^verbatim>\<open>s.split(",")\<close>.\<close>

fun split_comma :: "string \<Rightarrow> string list" where
  "split_comma [] = [[]]"
| "split_comma (c # cs) =
     (if c = CHR '','' then [] # split_comma cs
      else (case split_comma cs of p # ps \<Rightarrow> (c # p) # ps | [] \<Rightarrow> [[c]]))"

text \<open>
  \<^verbatim>\<open>TorchModel._get_class_labels\<close>. Reading the labels map from a path
  (\<^verbatim>\<open>fou.fill_patterns\<close>, \<^verbatim>\<open>etal.load_labels_map\<close>, \<^verbatim>\<open>etal.get_class_labels\<close>) is the
  parameter \<open>load_labels\<close>.
\<close>

definition TorchModel_get_class_labels ::
  "(string \<Rightarrow> error + string list) \<Rightarrow> TorchModelConfig \<Rightarrow> error + string list" where
  "TorchModel_get_class_labels load_labels config =
     (if truthy (labels_string config) then Inr (split_comma (the (labels_string config)))
      else if \<not> truthy (labels_path config)
      then Inl (ValueError ''Either `labels_string` or `labels_path` must be specified'')
      else load_labels (the (labels_path config)))"

text \<open>The transforms of the preprocessing pipeline; the torchvision ones are kept as
  constructors with their arguments.\<close>

datatype 'i transform =
    ToPILImage
  | MinResizeT "'i MinResize"
  | Resize min_size_arg
  | ToTensor
  | Normalize "real list" "real list"

definition TorchModel_build_transforms :: "TorchModelConfig \<Rightarrow> error + 'i transform list" where
  "TorchModel_build_transforms config =
     (let transforms = [ToPILImage];
          transforms =
            (if truthy (image_min_size config)
             then transforms @ [MinResizeT (MinResize_init (Size (the (image_min_size config))) None)]
             else if truthy_num (image_min_dim config)
             then transforms @ [MinResizeT (MinResize_init (Dim (the (image_min_dim config))) None)]
             else if truthy (image_size config)
             then transforms @ [Resize (Size (the (image_size config)))]
             else if truthy_num (image_dim config)
             then transforms @ [Resize (Dim (the (image_dim config)))]
             else transforms);
          transforms = transforms @ [ToTensor]
      in if truthy (image_mean config) \<or> truthy (image_std config)
         then
           (if \<not> truthy (image_mean config) \<or> \<not> truthy (image_std config)
            then Inl (ValueError ''Both `image_mean` and `image_std` must be provided'')
            else Inr (transforms @
                      [Normalize (the (image_mean config)) (the (image_std config))]))
         else Inr transforms)"

text \<open>
  \<^verbatim>\<open>TorchModel.__init__\<close>: class labels, transforms, the model, the output processor, in
  this order. Loading the model and building the output processor from its class name are
  the parameters \<open>load_model\<close> and \<open>build_output_processor\<close>.
\<close>

record ('i, 'm, 'op) TorchModel =
  config :: TorchModelConfig
  model_class_labels :: "string list"
  num_classes :: nat
  transforms :: "'i transform list"
  model :: 'm
  output_processor :: 'op

definition TorchModel_init ::
  "(string \<Rightarrow> error + string list) \<Rightarrow> (TorchModelConfig \<Rightarrow> error + 'm) \<Rightarrow>
   (TorchModelConfig \<Rightarrow> string list \<Rightarrow> error + 'op) \<Rightarrow> TorchModelConfig \<Rightarrow>
   error + ('i, 'm, 'op) TorchModel" where
  "TorchModel_init load_labels load_model build_output_processor cfg =
     (case TorchModel_get_class_labels load_labels cfg of
        Inl e \<Rightarrow> Inl e
      | Inr cl \<Rightarrow>
          (case TorchModel_build_transforms cfg of
             Inl e \<Rightarrow> Inl e
           | Inr ts \<Rightarrow>
               (case load_model cfg of
                  Inl e \<Rightarrow> Inl e
                | Inr m \<Rightarrow>
                    (case build_output_processor cfg cl of
                       Inl e \<Rightarrow> Inl e
                     | Inr p \<Rightarrow>
                         Inr \<lparr> config = cfg, model_class_labels = cl,
                               num_classes = length cl, transforms = ts, model = m,
                               output_processor = p \<rparr>))))"


section \<open>Properties of the resize transform\<close>

lemma py_round_ge_floor: "\<lfloor>x\<rfloor> \<le> py_round x"
  by (simp add: py_round_def Let_def)

lemma py_round_ge_int:
  assumes "of_int m \<le> x"
  shows "m \<le> py_round x"
proof -
  have "m \<le> \<lfloor>x\<rfloor>" using assms by (simp add: le_floor_iff)
  then show ?thesis using py_round_ge_floor [of x] by linarith
qed

lemma scaled_ge_min:
  fixes h :: int and alpha :: real
  assumes "0 < h" and "of_int m / of_int h \<le> alpha"
  shows "of_int m \<le> alpha * of_int h"
proof -
  have "0 < (of_int h :: real)" using assms(1) by simp
  then show ?thesis using assms(2) by (simp add: pos_divide_le_eq)
qed

lemma pil_resize_contract: "resize_contract pil_resize"
  by (auto simp: resize_contract_def pil_resize_def image_hw_def split: image.splits if_splits)

lemma MinResize_call_unchanged:
  assumes "image_hw img = Inr (h, w)" and "min_output_size self = [minh, minw]"
    and "h \<ge> minh \<and> w \<ge> minw"
  shows "MinResize_call resize self img = Inr img"
  using assms by (simp add: MinResize_call_def)

lemma MinResize_call_resized:
  assumes "image_hw img = Inr (h, w)" and "min_output_size self = [minh, minw]"
    and "\<not> (h \<ge> minh \<and> w \<ge> minw)" and "0 < h" and "0 < w"
    and "alpha = max (real_of_int minh / of_int h) (of_int minw / of_int w)"
  shows "MinResize_call resize self img =
           resize img (py_round (alpha * of_int h), py_round (alpha * of_int w)) (interpolation self)"
  using assms by (auto simp: MinResize_call_def py_truediv_def Let_def)

lemma MinResize_target_ge_min:
  assumes "0 < h" and "0 < w"
    and "alpha = max (real_of_int minh / of_int h) (of_int minw / of_int w)"
  shows "minh \<le> py_round (alpha * of_int h) \<and> minw \<le> py_round (alpha * of_int w)"
proof
  have "of_int minh \<le> alpha * of_int h"
    using assms by (intro scaled_ge_min) simp_all
  then show "minh \<le> py_round (alpha * of_int h)" by (rule py_round_ge_int)
  have "of_int minw \<le> alpha * of_int w"
    using assms by (intro scaled_ge_min) simp_all
  then show "minw \<le> py_round (alpha * of_int w)" by (rule py_round_ge_int)
qed

text \<open>
  Claim C5. For an image of height \<open>h\<close> and width \<open>w\<close> and minimums \<open>(minh, minw)\<close>, the
  transform returns the input itself when \<open>h \<ge> minh\<close> and \<open>w \<ge> minw\<close>. Otherwise, the
  dimensions being positive, it calls the resampling routine with the target
  \<open>(round (alpha * h), round (alpha * w))\<close> where \<open>alpha = max (minh / h) (minw / w)\<close>, and
  both target dimensions are at or above their minimums. (A dimension 0 below its minimum
  raises \<^verbatim>\<open>ZeroDivisionError\<close>.)
\<close>

theorem MinResize_call_spec:
  assumes "image_hw img = Inr (h, w)" and "min_output_size self = [minh, minw]"
  shows "(h \<ge> minh \<and> w \<ge> minw \<longrightarrow> MinResize_call resize self img = Inr img) \<and>
         (\<not> (h \<ge> minh \<and> w \<ge> minw) \<and> 0 < h \<and> 0 < w \<longrightarrow>
            (let alpha = max (of_int minh / of_int h) (of_int minw / of_int w);
                 th = py_round (alpha * of_int h); tw = py_round (alpha * of_int w)
             in MinResize_call resize self img = resize img (th, tw) (interpolation self)
                \<and> minh \<le> th \<and> minw \<le> tw))"
  using MinResize_call_unchanged [OF assms, where resize = resize]
    MinResize_call_resized [OF assms, where resize = resize]
    MinResize_target_ge_min [of h w _ minh minw]
  unfolding Let_def by blast

theorem MinResize_call_spec_witness:
  "MinResize_call pil_resize (MinResize_init (Dim 75) (None :: unit option)) (PIL (100, 50) ())
     = Inr (PIL (150, 75) ()) \<and>
   MinResize_call pil_resize (MinResize_init (Dim 75) (None :: unit option)) (PIL (150, 75) ())
     = Inr (PIL (150, 75) ())"
proof -
  have ms: "min_output_size (MinResize_init (Dim 75) (None :: unit option)) = [75, 75]"
    by (simp add: MinResize_init_def)
  have hw1: "image_hw (PIL (100, 50) ()) = Inr (50, 100)" by (simp add: image_hw_def)
  have hw2: "image_hw (PIL (150, 75) ()) = Inr (75, 150)" by (simp add: image_hw_def)
  have r: "py_round 75 = 75" "py_round 150 = 150" by (simp_all add: py_round_def)
  show ?thesis
    using MinResize_call_spec [OF hw1 ms, of pil_resize]
      MinResize_call_spec [OF hw2 ms, of pil_resize]
    by (simp add: Let_def pil_resize_def r)
qed

text \<open>The rounding is Python's: the tie \<open>2.5\<close> goes to the even \<open>2\<close>.\<close>

lemma MinResize_tie:
  "MinResize_call pil_resize (MinResize_init (Size [5, 1]) (None :: unit option)) (PIL (1, 2) ())
     = Inr (PIL (2, 5) ())"
  by (simp add: MinResize_call_def MinResize_init_def image_hw_def py_truediv_def py_round_def
      pil_resize_def Let_def)

lemma image_hw_nonneg: "image_hw img = Inr (h, w) \<Longrightarrow> 0 \<le> h \<and> 0 \<le> w"
  by (auto simp: image_hw_def split: image.splits list.splits prod.splits)

text \<open>
  Claim C10. The transform is idempotent: whenever the resampling routine returns an image
  of the size it was asked for, applying the transform to the result of a first
  application gives the result of the first application (and an exception of the first
  application is the outcome of both).
\<close>

theorem MinResize_idempotent:
  assumes "resize_contract resize"
  shows "MinResize_twice resize self img = MinResize_call resize self img"
proof (cases "MinResize_call resize self img")
  case (Inl e)
  then show ?thesis by (simp add: MinResize_twice_def)
next
  case (Inr img')
  then obtain h w where hw: "image_hw img = Inr (h, w)"
    by (cases "image_hw img") (auto simp: MinResize_call_def)
  from Inr hw obtain minh minw where ms: "min_output_size self = [minh, minw]"
    by (auto simp: MinResize_call_def split: list.splits)
  show ?thesis
  proof (cases "h \<ge> minh \<and> w \<ge> minw")
    case True
    then have "MinResize_call resize self img = Inr img"
      by (rule MinResize_call_unchanged [OF hw ms])
    then show ?thesis by (simp add: MinResize_twice_def)
  next
    case False
    have nz: "h \<noteq> 0 \<and> w \<noteq> 0"
      using Inr hw ms False by (auto simp: MinResize_call_def py_truediv_def split: if_splits)
    then have pos: "0 < h" "0 < w" using image_hw_nonneg [OF hw] by linarith+
    define alpha where "alpha = max (real_of_int minh / of_int h) (of_int minw / of_int w)"
    define th where "th = py_round (alpha * of_int h)"
    define tw where "tw = py_round (alpha * of_int w)"
    note spec = MinResize_call_resized [OF hw ms False pos alpha_def, where resize = resize,
        folded th_def tw_def]
    note ge = MinResize_target_ge_min [OF pos alpha_def, folded th_def tw_def]
    have "resize img (th, tw) (interpolation self) = Inr img'" using Inr spec by simp
    then have hw': "image_hw img' = Inr (th, tw)"
      using assms unfolding resize_contract_def by blast
    have "MinResize_call resize self img' = Inr img'"
      using ge by (intro MinResize_call_unchanged [OF hw' ms]) simp
    then show ?thesis using Inr by (simp add: MinResize_twice_def)
  qed
qed

theorem MinResize_idempotent_witness:
  "MinResize_twice pil_resize (MinResize_init (Dim 75) (None :: unit option)) (PIL (100, 50) ())
     = Inr (PIL (150, 75) ())"
proof -
  have "MinResize_call pil_resize (MinResize_init (Dim 75) (None :: unit option))
          (PIL (100, 50) ()) = Inr (PIL (150, 75) ())"
    by (simp add: MinResize_call_def MinResize_init_def image_hw_def py_truediv_def py_round_def
        pil_resize_def Let_def)
  then show ?thesis
    using MinResize_idempotent [OF pil_resize_contract,
        of "MinResize_init (Dim 75) (None :: unit option)" "PIL (100, 50) ()"]
    by simp
qed


section \<open>Properties of the box normalization\<close>

text \<open>
  Claim C9, as stated, fails: with \<open>width = 1\<close> and \<open>height = 1\<close> the box
  \<open>(0.5, 0.5, 1, 1)\<close> becomes \<open>(0.5, 0.5, 0.5, 0.5)\<close>, so the inputs are not left unchanged,
  and normalizing the result once more gives yet another box.
\<close>

theorem normalize_box_identity_counterexample:
  "normalize_box (1 / 2, 1 / 2, 1, 1) 1 1 = [1 / 2, 1 / 2, 1 / 2, 1 / 2] \<and>
   normalize_box (1 / 2, 1 / 2, 1, 1) 1 1 \<noteq> [1 / 2, 1 / 2, 1, 1] \<and>
   normalize_box (1 / 2, 1 / 2, 1 / 2, 1 / 2) 1 1 \<noteq> normalize_box (1 / 2, 1 / 2, 1, 1) 1 1"
  by (simp add: normalize_box_def)

text \<open>
  Claim C9, amended. Under the identity frame size the normalization does not scale: it
  returns \<open>(x1, y1, x2 - x1, y2 - y1)\<close>, the corner and the extent of the box. For every box
  inside a frame of positive size the result \<open>(x, y, w, h)\<close> satisfies \<open>0 \<le> x\<close>, \<open>0 \<le> y\<close>,
  \<open>x + w \<le> 1\<close> and \<open>y + h \<le> 1\<close>.
\<close>

theorem normalize_box_frame:
  "normalize_box (x1, y1, x2, y2) 1 1 = [x1, y1, x2 - x1, y2 - y1] \<and>
   (0 < width \<and> 0 < height \<and> 0 \<le> x1 \<and> x1 \<le> x2 \<and> x2 \<le> of_int width \<and>
    0 \<le> y1 \<and> y1 \<le> y2 \<and> y2 \<le> of_int height \<longrightarrow>
      (\<exists>x y w h. normalize_box (x1, y1, x2, y2) width height = [x, y, w, h] \<and>
         0 \<le> x \<and> 0 \<le> y \<and> x + w \<le> 1 \<and> y + h \<le> 1))"
proof (intro conjI impI)
  show "normalize_box (x1, y1, x2, y2) 1 1 = [x1, y1, x2 - x1, y2 - y1]"
    by (simp add: normalize_box_def)
next
  assume a: "0 < width \<and> 0 < height \<and> 0 \<le> x1 \<and> x1 \<le> x2 \<and> x2 \<le> of_int width \<and>
    0 \<le> y1 \<and> y1 \<le> y2 \<and> y2 \<le> of_int height"
  have W: "0 < real_of_int width" and H: "0 < real_of_int height" using a by simp_all
  have "x1 / of_int width + (x2 - x1) / of_int width = x2 / of_int width"
    by (simp add: diff_divide_distrib)
  moreover have "x2 / of_int width \<le> 1" using a W by simp
  ultimately have xw: "x1 / of_int width + (x2 - x1) / of_int width \<le> 1" by simp
  have "y1 / of_int height + (y2 - y1) / of_int height = y2 / of_int height"
    by (simp add: diff_divide_distrib)
  moreover have "y2 / of_int height \<le> 1" using a H by simp
  ultimately have yh: "y1 / of_int height + (y2 - y1) / of_int height \<le> 1" by simp
  have x: "0 \<le> x1 / of_int width" and y: "0 \<le> y1 / of_int height" using a W H by simp_all
  have "normalize_box (x1, y1, x2, y2) width height =
      [x1 / of_int width, y1 / of_int height, (x2 - x1) / of_int width, (y2 - y1) / of_int height]"
    by (simp add: normalize_box_def)
  then show "\<exists>x y w h. normalize_box (x1, y1, x2, y2) width height = [x, y, w, h] \<and>
         0 \<le> x \<and> 0 \<le> y \<and> x + w \<le> 1 \<and> y + h \<le> 1"
    using x y xw yh by blast
qed

theorem normalize_box_frame_witness:
  "normalize_box (10, 20, 30, 60) 100 200 = [1 / 10, 1 / 10, 1 / 5, 1 / 5] \<and>
   (\<exists>x y w h. normalize_box (10, 20, 30, 60) 100 200 = [x, y, w, h] \<and>
         0 \<le> x \<and> 0 \<le> y \<and> x + w \<le> 1 \<and> y + h \<le> 1)"
  using normalize_box_frame [of 10 20 30 60 100 200]
  by (simp add: normalize_box_def)

section \<open>Properties of the detection processors\<close>

lemma below_thresh_iff:
  "\<not> below_thresh ct s \<longleftrightarrow> (case ct of None \<Rightarrow> True | Some t \<Rightarrow> t \<le> s)"
  by (simp add: below_thresh_def not_less split: option.splits)

lemma py_index_nonneg:
  "0 \<le> i \<Longrightarrow> i < int (length xs) \<Longrightarrow> py_index xs i = Inr (xs ! nat i)"
  by (simp add: py_index_def)

lemma py_index_negative:
  "- int (length xs) \<le> i \<Longrightarrow> i < 0 \<Longrightarrow> py_index xs i = Inr (xs ! nat (int (length xs) + i))"
  by (simp add: py_index_def)

lemma py_index_outside:
  "i < - int (length xs) \<or> int (length xs) \<le> i \<Longrightarrow> py_index xs i = Inl IndexError"
  by (auto simp: py_index_def)

lemma mapM_Inr:
  "(\<And>x. x \<in> set xs \<Longrightarrow> f x = Inr (g x)) \<Longrightarrow> mapM f xs = Inr (map g xs)"
  by (induction xs) auto

lemma mapM_isl:
  "x \<in> set xs \<Longrightarrow> isl (f x) \<Longrightarrow> isl (mapM f xs)"
  by (induction xs) (auto split: sum.splits)

lemma Detector_loop_Inr:
  assumes "\<forall>(box, l, s) \<in> set cands. \<not> below_thresh (confidence_thresh self) s \<longrightarrow>
             0 \<le> l \<and> l < int (length (class_labels self))"
  shows "Detector_loop self fs cands acc =
           Inr (acc @ map (\<lambda>(box, l, s).
                  \<lparr> det_label = class_labels self ! nat l,
                    bounding_box = normalize_box box (fst fs) (snd fs),
                    mask = None, det_confidence = s \<rparr>)
                (filter (\<lambda>(box, l, s). \<not> below_thresh (confidence_thresh self) s) cands))"
  using assms
  by (induction cands arbitrary: acc) (auto simp: py_index_nonneg Let_def)

lemma Detector_loop_isl:
  assumes "(box, l, s) \<in> set cands" and "\<not> below_thresh (confidence_thresh self) s"
    and "l < - int (length (class_labels self)) \<or> int (length (class_labels self)) \<le> l"
  shows "isl (Detector_loop self fs cands acc)"
  using assms
  by (induction cands arbitrary: acc) (auto simp: py_index_outside Let_def split: sum.splits)



text \<open>
  Claim C4. For a per-image output and a frame of positive size, the detector emits one
  detection for each candidate whose score is not below the confidence threshold (for every
  candidate when there is none), in input order, with the bounding box
  \<open>(x1 / width, y1 / height, (x2 - x1) / width, (y2 - y1) / height)\<close>. The labels of the kept
  candidates are taken to be indices into the class labels. The instance below contains the
  box \<open>(10, 20, 30, 60)\<close> in a \<open>100 \<times> 200\<close> frame, which becomes \<open>(0.1, 0.1, 0.2, 0.2)\<close>.
\<close>

theorem DetectorOutputProcessor_parse_detections_spec:
  assumes "0 < width" and "0 < height"
    and "kept = filter (\<lambda>(box, l, s). case confidence_thresh self of None \<Rightarrow> True | Some t \<Rightarrow> t \<le> s)
                  (zip (boxes output) (zip (labels output) (scores output)))"
    and "\<forall>(box, l, s) \<in> set kept. 0 \<le> l \<and> l < int (length (class_labels self))"
  shows "DetectorOutputProcessor_parse_detections self output (width, height) =
           Inr (Detections (map (\<lambda>((x1, y1, x2, y2), l, s).
                  \<lparr> det_label = class_labels self ! nat l,
                    bounding_box = [x1 / of_int width, y1 / of_int height,
                                    (x2 - x1) / of_int width, (y2 - y1) / of_int height],
                    mask = None, det_confidence = s \<rparr>) kept))"
proof -
  let ?cands = "zip (boxes output) (zip (labels output) (scores output))"
  have k: "kept = filter (\<lambda>(box, l, s). \<not> below_thresh (confidence_thresh self) s) ?cands"
    unfolding assms(3) by (simp add: below_thresh_iff)
  have ok: "\<forall>(box, l, s) \<in> set ?cands. \<not> below_thresh (confidence_thresh self) s \<longrightarrow>
             0 \<le> l \<and> l < int (length (class_labels self))"
    using assms(4) unfolding k by fastforce
  show ?thesis
    unfolding DetectorOutputProcessor_parse_detections_def
    by (simp add: Detector_loop_Inr [OF ok] k normalize_box_def)
qed

theorem DetectorOutputProcessor_parse_detections_spec_witness:
  "DetectorOutputProcessor_parse_detections (DetectorOutputProcessor_init [''cat'', ''dog''] (Some (1 / 2)))
     \<lparr> boxes = [(10, 20, 30, 60), (0, 0, 50, 100), (50, 100, 100, 200)],
       labels = [1, 7, 0], scores = [9 / 10, 3 / 10, 1 / 2] \<rparr> (100, 200) =
   Inr (Detections
     [\<lparr> det_label = ''dog'', bounding_box = [1 / 10, 1 / 10, 1 / 5, 1 / 5], mask = None,
        det_confidence = 9 / 10 \<rparr>,
      \<lparr> det_label = ''cat'', bounding_box = [1 / 2, 1 / 2, 1 / 2, 1 / 2], mask = None,
        det_confidence = 1 / 2 \<rparr>])"
  using DetectorOutputProcessor_parse_detections_spec
    [of 100 200 _ "DetectorOutputProcessor_init [''cat'', ''dog''] (Some (1 / 2))"
      "\<lparr> boxes = [(10, 20, 30, 60), (0, 0, 50, 100), (50, 100, 100, 200)],
         labels = [1, 7, 0], scores = [9 / 10, 3 / 10, 1 / 2] \<rparr>", OF _ _ refl]
  by (simp add: DetectorOutputProcessor_init_def)

lemma py_slice_in_range:
  assumes "0 \<le> a" and "a \<le> b" and "b \<le> int (length xs)"
  shows "py_slice a b xs = map (\<lambda>i. xs ! i) [nat a..<nat b]"
proof -
  have lo: "slice_bound (length xs) a = nat a" and hi: "slice_bound (length xs) b = nat b"
    using assms by (simp_all add: slice_bound_def)
  have "take (nat b - nat a) (drop (nat a) xs) = map (\<lambda>i. xs ! i) [nat a..<nat b]"
    using assms by (intro nth_equalityI) (auto simp: nat_le_iff)
  then show ?thesis by (simp add: py_slice_def lo hi)
qed

lemma crop_in_range:
  assumes "0 \<le> r1" and "r1 \<le> r2" and "r2 \<le> int (length a)"
    and "0 \<le> c1" and "c1 \<le> c2" and "\<forall>row \<in> set a. c2 \<le> int (length row)"
  shows "crop r1 r2 c1 c2 a = map (\<lambda>i. map (\<lambda>j. a ! i ! j) [nat c1..<nat c2]) [nat r1..<nat r2]"
proof -
  have rows: "py_slice r1 r2 a = map (\<lambda>i. a ! i) [nat r1..<nat r2]"
    using assms by (intro py_slice_in_range)
  have "py_slice c1 c2 (a ! i) = map (\<lambda>j. a ! i ! j) [nat c1..<nat c2]"
    if "i < nat r2" for i
  proof -
    have "a ! i \<in> set a" using that assms(3) by (intro nth_mem) linarith
    then show ?thesis using assms by (intro py_slice_in_range) auto
  qed
  then show ?thesis by (simp add: crop_def rows)
qed

lemma InstanceSegmenter_loop_Inr:
  assumes "\<forall>(box, l, s, sm) \<in> set cands. \<not> below_thresh (confidence_thresh self) s \<longrightarrow>
             0 \<le> l \<and> l < int (length (class_labels self)) \<and> length sm = 1"
  shows "InstanceSegmenter_loop self fs cands acc =
           Inr (acc @ map (\<lambda>((x1, y1, x2, y2), l, s, sm).
                  \<lparr> det_label = class_labels self ! nat l,
                    bounding_box = normalize_box (x1, y1, x2, y2) (fst fs) (snd fs),
                    mask = Some (map (map (\<lambda>v. mask_thresh self < v))
                             (crop (py_round y1) (py_round y2) (py_round x1) (py_round x2) (sm ! 0))),
                    det_confidence = s \<rparr>)
                (filter (\<lambda>(box, l, s, sm). \<not> below_thresh (confidence_thresh self) s) cands))"
  using assms
proof (induction cands arbitrary: acc)
  case Nil
  then show ?case by simp
next
  case (Cons c cands)
  obtain x1 y1 x2 y2 l s sm where c: "c = ((x1, y1, x2, y2), l, s, sm)"
    by (metis prod_cases4 surj_pair)
  have IH: "\<And>acc. InstanceSegmenter_loop self fs cands acc =
           Inr (acc @ map (\<lambda>((x1, y1, x2, y2), l, s, sm).
                  \<lparr> det_label = class_labels self ! nat l,
                    bounding_box = normalize_box (x1, y1, x2, y2) (fst fs) (snd fs),
                    mask = Some (map (map (\<lambda>v. mask_thresh self < v))
                             (crop (py_round y1) (py_round y2) (py_round x1) (py_round x2) (sm ! 0))),
                    det_confidence = s \<rparr>)
                (filter (\<lambda>(box, l, s, sm). \<not> below_thresh (confidence_thresh self) s) cands))"
    using Cons by simp
  show ?case
  proof (cases "below_thresh (confidence_thresh self) s")
    case True
    then show ?thesis by (simp add: c IH)
  next
    case False
    then have l: "0 \<le> l" "l < int (length (class_labels self))" and sm: "length sm = 1"
      using Cons.prems by (auto simp: c)
    from sm obtain q where q: "sm = [q]" by (cases sm) auto
    show ?thesis
      using False by (simp add: c IH q np_squeeze0_def py_index_nonneg l Let_def)
  qed
qed

lemma InstanceSegmenter_loop_isl:
  assumes "(box, l, s, sm) \<in> set cands" and "\<not> below_thresh (confidence_thresh self) s"
    and "l < - int (length (class_labels self)) \<or> int (length (class_labels self)) \<le> l"
  shows "isl (InstanceSegmenter_loop self fs cands acc)"
  using assms
  by (induction cands arbitrary: acc)
     (auto simp: py_index_outside Let_def split: sum.splits)


text \<open>
  Claim C6. For every kept candidate of the instance segmenter whose soft mask has shape
  \<open>[1, H, W]\<close>, the attached mask is the soft mask without its channel axis, sliced to rows
  \<open>round y1 : round y2\<close> and columns \<open>round x1 : round x2\<close> and compared with
  \<^verbatim>\<open>mask_thresh\<close>; when the rounded box lies inside the mask these are the rows
  \<open>round y1 \<le> i < round y2\<close> and the columns \<open>round x1 \<le> j < round x2\<close>. A cropped soft
  mask that is \<open>0.6\<close> everywhere gives an all-true mask for the threshold \<open>0.5\<close> and an
  all-false mask for \<open>0.7\<close>, and \<open>0.5\<close> is the threshold when none is passed.
\<close>

theorem InstanceSegmenter_mask_spec:
  assumes "kept = filter (\<lambda>(box, l, s, sm). case confidence_thresh self of None \<Rightarrow> True | Some t \<Rightarrow> t \<le> s)
                  (zip (boxes output) (zip (labels output) (zip (scores output) (masks output))))"
    and "\<forall>(box, l, s, sm) \<in> set kept.
           0 \<le> l \<and> l < int (length (class_labels self)) \<and> length sm = 1"
  shows "(\<exists>ds. InstanceSegmenterOutputProcessor_parse_detections self output fs = Inr (Detections ds) \<and>
            length ds = length kept \<and>
            (\<forall>k < length kept. case kept ! k of ((x1, y1, x2, y2), l, s, sm) \<Rightarrow>
               (let sq = sm ! 0;
                    r1 = py_round y1; r2 = py_round y2; c1 = py_round x1; c2 = py_round x2;
                    cropped = map (py_slice c1 c2) (py_slice r1 r2 sq)
                in mask (ds ! k) = Some (map (map (\<lambda>v. mask_thresh self < v)) cropped) \<and>
                   (0 \<le> r1 \<and> r1 \<le> r2 \<and> r2 \<le> int (length sq) \<and>
                    0 \<le> c1 \<and> c1 \<le> c2 \<and> (\<forall>row \<in> set sq. c2 \<le> int (length row)) \<longrightarrow>
                      cropped = map (\<lambda>i. map (\<lambda>j. sq ! i ! j) [nat c1..<nat c2]) [nat r1..<nat r2]) \<and>
                   ((\<forall>row \<in> set cropped. \<forall>v \<in> set row. v = 6 / 10) \<longrightarrow>
                      (mask_thresh self = 1 / 2 \<longrightarrow>
                         mask (ds ! k) = Some (map (map (\<lambda>v. True)) cropped)) \<and>
                      (mask_thresh self = 7 / 10 \<longrightarrow>
                         mask (ds ! k) = Some (map (map (\<lambda>v. False)) cropped)))))) \<and>
         mask_thresh (InstanceSegmenterOutputProcessor_init cl ct None) = 1 / 2"
proof (intro conjI)
  let ?cands = "zip (boxes output) (zip (labels output) (zip (scores output) (masks output)))"
  let ?mk = "\<lambda>((x1, y1, x2, y2), l, s, sm).
                  \<lparr> det_label = class_labels self ! nat l,
                    bounding_box = normalize_box (x1, y1, x2, y2) (fst fs) (snd fs),
                    mask = Some (map (map (\<lambda>v. mask_thresh self < v))
                             (crop (py_round y1) (py_round y2) (py_round x1) (py_round x2) (sm ! 0))),
                    det_confidence = s \<rparr>"
  have k: "kept = filter (\<lambda>(box, l, s, sm). \<not> below_thresh (confidence_thresh self) s) ?cands"
    unfolding assms(1) by (simp add: below_thresh_iff)
  have ok: "\<forall>(box, l, s, sm) \<in> set ?cands. \<not> below_thresh (confidence_thresh self) s \<longrightarrow>
             0 \<le> l \<and> l < int (length (class_labels self)) \<and> length sm = 1"
    using assms(2) unfolding k by fastforce
  have res: "InstanceSegmenterOutputProcessor_parse_detections self output fs =
      Inr (Detections (map ?mk kept))"
    unfolding InstanceSegmenterOutputProcessor_parse_detections_def
    by (simp add: InstanceSegmenter_loop_Inr [OF ok] k)
  have each: "case kept ! k of ((x1, y1, x2, y2), l, s, sm) \<Rightarrow>
               (let sq = sm ! 0;
                    r1 = py_round y1; r2 = py_round y2; c1 = py_round x1; c2 = py_round x2;
                    cropped = map (py_slice c1 c2) (py_slice r1 r2 sq)
                in mask (map ?mk kept ! k) = Some (map (map (\<lambda>v. mask_thresh self < v)) cropped) \<and>
                   (0 \<le> r1 \<and> r1 \<le> r2 \<and> r2 \<le> int (length sq) \<and>
                    0 \<le> c1 \<and> c1 \<le> c2 \<and> (\<forall>row \<in> set sq. c2 \<le> int (length row)) \<longrightarrow>
                      cropped = map (\<lambda>i. map (\<lambda>j. sq ! i ! j) [nat c1..<nat c2]) [nat r1..<nat r2]) \<and>
                   ((\<forall>row \<in> set cropped. \<forall>v \<in> set row. v = 6 / 10) \<longrightarrow>
                      (mask_thresh self = 1 / 2 \<longrightarrow>
                         mask (map ?mk kept ! k) = Some (map (map (\<lambda>v. True)) cropped)) \<and>
                      (mask_thresh self = 7 / 10 \<longrightarrow>
                         mask (map ?mk kept ! k) = Some (map (map (\<lambda>v. False)) cropped))))"
    if "k < length kept" for k
  proof -
    obtain x1 y1 x2 y2 l s sm where c: "kept ! k = ((x1, y1, x2, y2), l, s, sm)"
      by (metis prod_cases4 surj_pair)
    define cropped where
      "cropped = map (py_slice (py_round x1) (py_round x2)) (py_slice (py_round y1) (py_round y2) (sm ! 0))"
    have m: "mask (map ?mk kept ! k) = Some (map (map (\<lambda>v. mask_thresh self < v)) cropped)"
      using that by (simp add: c crop_def cropped_def)
    have inr: "cropped = map (\<lambda>i. map (\<lambda>j. sm ! 0 ! i ! j) [nat (py_round x1)..<nat (py_round x2)])
                 [nat (py_round y1)..<nat (py_round y2)]"
      if "0 \<le> py_round y1 \<and> py_round y1 \<le> py_round y2 \<and> py_round y2 \<le> int (length (sm ! 0)) \<and>
          0 \<le> py_round x1 \<and> py_round x1 \<le> py_round x2 \<and>
          (\<forall>row \<in> set (sm ! 0). py_round x2 \<le> int (length row))"
      using that crop_in_range [of "py_round y1" "py_round y2" "sm ! 0" "py_round x1" "py_round x2"]
      by (simp add: cropped_def crop_def)
    have t: "map (map (\<lambda>v. (1 / 2 :: real) < v)) cropped = map (map (\<lambda>v. True)) cropped"
      if "\<forall>row \<in> set cropped. \<forall>v \<in> set row. v = 6 / 10"
    proof (rule map_cong [OF refl], rule map_cong [OF refl])
      fix row v assume "row \<in> set cropped" "v \<in> set row"
      then have "v = 6 / 10" using that by blast
      then show "(1 / 2 < v) = True" by simp
    qed
    have f: "map (map (\<lambda>v. (7 / 10 :: real) < v)) cropped = map (map (\<lambda>v. False)) cropped"
      if "\<forall>row \<in> set cropped. \<forall>v \<in> set row. v = 6 / 10"
    proof (rule map_cong [OF refl], rule map_cong [OF refl])
      fix row v assume "row \<in> set cropped" "v \<in> set row"
      then have "v = 6 / 10" using that by blast
      then show "(7 / 10 < v) = False" by simp
    qed
    have m1: "mask (map ?mk kept ! k) = Some (map (map (\<lambda>v. True)) cropped)"
      if "mask_thresh self = 1 / 2" and "\<forall>row \<in> set cropped. \<forall>v \<in> set row. v = 6 / 10"
    proof -
      have "mask (map ?mk kept ! k) = Some (map (map (\<lambda>v. mask_thresh self < v)) cropped)"
        by (rule m)
      also have "\<dots> = Some (map (map (\<lambda>v. 1 / 2 < v)) cropped)" by (simp only: that(1))
      also have "\<dots> = Some (map (map (\<lambda>v. True)) cropped)" by (simp only: t [OF that(2)])
      finally show ?thesis .
    qed
    have m7: "mask (map ?mk kept ! k) = Some (map (map (\<lambda>v. False)) cropped)"
      if "mask_thresh self = 7 / 10" and "\<forall>row \<in> set cropped. \<forall>v \<in> set row. v = 6 / 10"
    proof -
      have "mask (map ?mk kept ! k) = Some (map (map (\<lambda>v. mask_thresh self < v)) cropped)"
        by (rule m)
      also have "\<dots> = Some (map (map (\<lambda>v. 7 / 10 < v)) cropped)" by (simp only: that(1))
      also have "\<dots> = Some (map (map (\<lambda>v. False)) cropped)" by (simp only: f [OF that(2)])
      finally show ?thesis .
    qed
    show ?thesis
      unfolding c Let_def prod.case cropped_def [symmetric]
      using m inr m1 m7 by blast
  qed
  show "\<exists>ds. InstanceSegmenterOutputProcessor_parse_detections self output fs = Inr (Detections ds) \<and>
            length ds = length kept \<and>
            (\<forall>k < length kept. case kept ! k of ((x1, y1, x2, y2), l, s, sm) \<Rightarrow>
               (let sq = sm ! 0;
                    r1 = py_round y1; r2 = py_round y2; c1 = py_round x1; c2 = py_round x2;
                    cropped = map (py_slice c1 c2) (py_slice r1 r2 sq)
                in mask (ds ! k) = Some (map (map (\<lambda>v. mask_thresh self < v)) cropped) \<and>
                   (0 \<le> r1 \<and> r1 \<le> r2 \<and> r2 \<le> int (length sq) \<and>
                    0 \<le> c1 \<and> c1 \<le> c2 \<and> (\<forall>row \<in> set sq. c2 \<le> int (length row)) \<longrightarrow>
                      cropped = map (\<lambda>i. map (\<lambda>j. sq ! i ! j) [nat c1..<nat c2]) [nat r1..<nat r2]) \<and>
                   ((\<forall>row \<in> set cropped. \<forall>v \<in> set row. v = 6 / 10) \<longrightarrow>
                      (mask_thresh self = 1 / 2 \<longrightarrow>
                         mask (ds ! k) = Some (map (map (\<lambda>v. True)) cropped)) \<and>
                      (mask_thresh self = 7 / 10 \<longrightarrow>
                         mask (ds ! k) = Some (map (map (\<lambda>v. False)) cropped)))))"
    using res each by (intro exI [of _ "map ?mk kept"]) simp
next
  show "mask_thresh (InstanceSegmenterOutputProcessor_init cl ct None) = 1 / 2"
    by (simp add: InstanceSegmenterOutputProcessor_init_def)
qed


lemma py_round_examples:
  "py_round (1 / 2) = 0" "py_round (3 / 2) = 2" "py_round (5 / 2) = 2"
  by (simp_all add: py_round_def Let_def)

lemma py_slice_example: "py_slice 0 2 [a, b, c] = [a, b]"
  by (simp add: py_slice_def slice_bound_def)

theorem InstanceSegmenter_mask_spec_witness:
  "\<exists>ds. InstanceSegmenterOutputProcessor_parse_detections
          (InstanceSegmenterOutputProcessor_init [''cat''] None None)
          \<lparr> boxes = [(1 / 2, 1 / 2, 5 / 2, 3 / 2)], labels = [0], scores = [9 / 10],
            masks = [[[[6 / 10, 6 / 10, 1 / 10], [6 / 10, 6 / 10, 1 / 10],
                       [1 / 10, 1 / 10, 1 / 10]]]] \<rparr>
          (3, 3) = Inr (Detections ds) \<and>
        length ds = 1 \<and> mask (ds ! 0) = Some [[True, True], [True, True]]"
proof -
  define P where "P = InstanceSegmenterOutputProcessor_init [''cat''] None None"
  define out where "out = \<lparr> boxes = [(1 / 2, 1 / 2, 5 / 2, 3 / 2 :: real)], labels = [0],
      scores = [9 / 10],
      masks = [[[[6 / 10, 6 / 10, 1 / 10], [6 / 10, 6 / 10, 1 / 10], [1 / 10, 1 / 10, 1 / 10]]]] \<rparr>"
  define cand where "cand = ((1 / 2 :: real, 1 / 2 :: real, 5 / 2 :: real, 3 / 2 :: real), 0 :: int, 9 / 10 :: real,
      [[[6 / 10, 6 / 10, 1 / 10], [6 / 10, 6 / 10, 1 / 10], [1 / 10, 1 / 10, 1 / 10 :: real]]])"
  have P: "confidence_thresh P = None" "class_labels P = [''cat'']" "mask_thresh P = 1 / 2"
    by (simp_all add: P_def InstanceSegmenterOutputProcessor_init_def)
  have kept: "[cand] = filter (\<lambda>(box, l, s, sm). case confidence_thresh P of None \<Rightarrow> True | Some t \<Rightarrow> t \<le> s)
                  (zip (boxes out) (zip (labels out) (zip (scores out) (masks out))))"
    by (simp add: P out_def cand_def)
  have ok: "\<forall>(box, l, s, sm) \<in> set [cand].
           0 \<le> l \<and> l < int (length (class_labels P)) \<and> length sm = 1"
    by (simp add: P cand_def)
  from InstanceSegmenter_mask_spec [OF kept ok, of "(3, 3)"]
  obtain ds where res: "InstanceSegmenterOutputProcessor_parse_detections P out (3, 3) = Inr (Detections ds)"
    and len: "length ds = length [cand]"
    and each: "\<forall>k < length [cand]. case [cand] ! k of ((x1, y1, x2, y2), l, s, sm) \<Rightarrow>
               (let sq = sm ! 0;
                    r1 = py_round y1; r2 = py_round y2; c1 = py_round x1; c2 = py_round x2;
                    cropped = map (py_slice c1 c2) (py_slice r1 r2 sq)
                in mask (ds ! k) = Some (map (map (\<lambda>v. mask_thresh P < v)) cropped) \<and>
                   (0 \<le> r1 \<and> r1 \<le> r2 \<and> r2 \<le> int (length sq) \<and>
                    0 \<le> c1 \<and> c1 \<le> c2 \<and> (\<forall>row \<in> set sq. c2 \<le> int (length row)) \<longrightarrow>
                      cropped = map (\<lambda>i. map (\<lambda>j. sq ! i ! j) [nat c1..<nat c2]) [nat r1..<nat r2]) \<and>
                   ((\<forall>row \<in> set cropped. \<forall>v \<in> set row. v = 6 / 10) \<longrightarrow>
                      (mask_thresh P = 1 / 2 \<longrightarrow>
                         mask (ds ! k) = Some (map (map (\<lambda>v. True)) cropped)) \<and>
                      (mask_thresh P = 7 / 10 \<longrightarrow>
                         mask (ds ! k) = Some (map (map (\<lambda>v. False)) cropped))))"
    by blast
  from each have "mask (ds ! 0) = Some [[True, True], [True, True]]"
    by (simp add: cand_def Let_def py_round_examples py_slice_example P)
  then show ?thesis using res len unfolding P_def out_def by auto
qed

lemma normalize_point_Inr:
  "2 \<le> length p \<Longrightarrow>
     normalize_point width height p = Inr (p ! 0 / of_int width, p ! 1 / of_int height)"
  by (cases p) (auto simp: normalize_point_def py_index_def)

lemma polyline_points_Inr:
  assumes "\<forall>e \<in> set es. \<forall>v \<in> set e. 0 \<le> v \<and> v < int (length points)"
  shows "mapM (mapM (py_index points)) es = Inr (map (map (\<lambda>v. points ! nat v)) es)"
proof (rule mapM_Inr)
  fix e assume "e \<in> set es"
  then have "\<And>v. v \<in> set e \<Longrightarrow> py_index points v = Inr (points ! nat v)"
    using assms by (simp add: py_index_nonneg)
  then show "mapM (py_index points) e = Inr (map (\<lambda>v. points ! nat v) e)"
    by (rule mapM_Inr)
qed

lemma KeypointDetector_loop_Inr:
  assumes "\<forall>(box, l, s, kpts) \<in> set cands. \<not> below_thresh (confidence_thresh self) s \<longrightarrow>
             0 \<le> l \<and> l < int (length (class_labels self)) \<and> (\<forall>p \<in> set kpts. 2 \<le> length p) \<and>
             (\<forall>es. edges self = Some es \<longrightarrow>
                (\<forall>e \<in> set es. \<forall>v \<in> set e. 0 \<le> v \<and> v < int (length kpts)))"
  shows "KeypointDetector_loop self fs cands (ds, ks, ps) =
           (let kept = filter (\<lambda>(box, l, s, kpts). \<not> below_thresh (confidence_thresh self) s) cands
            in Inr (ds @ map (\<lambda>(box, l, s, kpts).
                          \<lparr> det_label = class_labels self ! nat l,
                            bounding_box = normalize_box box (fst fs) (snd fs),
                            mask = None, det_confidence = s \<rparr>) kept,
                    ks @ map (\<lambda>(box, l, s, kpts).
                          \<lparr> kp_label = class_labels self ! nat l,
                            kp_points = map (\<lambda>p. (p ! 0 / of_int (fst fs), p ! 1 / of_int (snd fs))) kpts,
                            kp_confidence = s \<rparr>) kept,
                    ps @ (case edges self of
                            None \<Rightarrow> []
                          | Some es \<Rightarrow>
                              map (\<lambda>(box, l, s, kpts).
                                \<lparr> pl_points = map (map (\<lambda>v.
                                      map (\<lambda>p. (p ! 0 / of_int (fst fs), p ! 1 / of_int (snd fs))) kpts ! nat v)) es,
                                  pl_confidence = s, closed = False, filled = False \<rparr>) kept)))"
  using assms
proof (induction cands arbitrary: ds ks ps)
  case Nil
  then show ?case by (simp split: option.splits)
next
  case (Cons c cands)
  obtain box l s kpts where c: "c = (box, l, s, kpts)"
    by (metis prod_cases4)
  note IH = Cons.IH
  have rest: "\<forall>(box, l, s, kpts) \<in> set cands. \<not> below_thresh (confidence_thresh self) s \<longrightarrow>
             0 \<le> l \<and> l < int (length (class_labels self)) \<and> (\<forall>p \<in> set kpts. 2 \<le> length p) \<and>
             (\<forall>es. edges self = Some es \<longrightarrow>
                (\<forall>e \<in> set es. \<forall>v \<in> set e. 0 \<le> v \<and> v < int (length kpts)))"
    using Cons.prems by simp
  show ?case
  proof (cases "below_thresh (confidence_thresh self) s")
    case True
    then show ?thesis by (simp add: c IH [OF rest])
  next
    case False
    then have l: "0 \<le> l" "l < int (length (class_labels self))"
      and p: "\<forall>p \<in> set kpts. 2 \<le> length p"
      and e: "\<And>es. edges self = Some es \<Longrightarrow>
                \<forall>e \<in> set es. \<forall>v \<in> set e. 0 \<le> v \<and> v < int (length kpts)"
      using Cons.prems by (auto simp: c)
    have pts: "mapM (normalize_point (fst fs) (snd fs)) kpts =
        Inr (map (\<lambda>p. (p ! 0 / of_int (fst fs), p ! 1 / of_int (snd fs))) kpts)"
      using p by (intro mapM_Inr normalize_point_Inr) simp
    show ?thesis
    proof (cases "edges self")
      case None
      then show ?thesis
        using False by (simp add: c IH [OF rest] pts py_index_nonneg l Let_def)
    next
      case (Some es)
      have "mapM (mapM (py_index (map (\<lambda>p. (p ! 0 / of_int (fst fs), p ! 1 / of_int (snd fs))) kpts))) es =
          Inr (map (map (\<lambda>v. map (\<lambda>p. (p ! 0 / of_int (fst fs), p ! 1 / of_int (snd fs))) kpts ! nat v)) es)"
        using e [OF Some] by (intro polyline_points_Inr) simp
      then show ?thesis
        using False Some by (simp add: c IH [OF rest] pts py_index_nonneg l Let_def)
    qed
  qed
qed

lemma KeypointDetector_loop_isl:
  assumes "(box, l, s, kpts) \<in> set cands" and "\<not> below_thresh (confidence_thresh self) s"
    and "l < - int (length (class_labels self)) \<or> int (length (class_labels self)) \<le> l"
  shows "isl (KeypointDetector_loop self fs cands acc)"
  using assms
proof (induction cands arbitrary: acc)
  case Nil
  then show ?case by simp
next
  case (Cons c cands)
  obtain ds ks ps where acc: "acc = (ds, ks, ps)" by (metis prod_cases3)
  obtain box' l' s' kpts' where c: "c = (box', l', s', kpts')" by (metis prod_cases4)
  show ?case
  proof (cases "c = (box, l, s, kpts)")
    case True
    then show ?thesis
      using Cons.prems(2,3) by (auto simp: acc py_index_outside Let_def split: sum.splits)
  next
    case False
    then have "(box, l, s, kpts) \<in> set cands" using Cons.prems(1) by simp
    then have "\<And>acc. isl (KeypointDetector_loop self fs cands acc)"
      using Cons.IH Cons.prems(2,3) by blast
    then show ?thesis
      by (auto simp: acc c Let_def split: sum.splits option.splits)
  qed
qed

text \<open>
  Claim C1, as stated, fails: the keypoint processor returns one mapping per image of the
  batch, each with the labels of that image only. On a batch of two images the result is
  a list of two mappings, not one mapping that holds the detections and keypoints of both.
\<close>

theorem KeypointDetectorOutputProcessor_call_aggregate_counterexample:
  "KeypointDetectorOutputProcessor_call (KeypointDetectorOutputProcessor_init [''person''] None None)
     [\<lparr> boxes = [(0, 0, 50, 50)], labels = [0], scores = [9 / 10],
        keypoints = [[[10, 20, 1], [30, 40, 1]]] \<rparr>,
      \<lparr> boxes = [(50, 50, 100, 100)], labels = [0], scores = [4 / 5],
        keypoints = [[[60, 70, 1], [80, 90, 1]]] \<rparr>]
     (100, 100) =
   Inr [[(''detections'', Detections
            [\<lparr> det_label = ''person'', bounding_box = [0, 0, 1 / 2, 1 / 2], mask = None,
               det_confidence = 9 / 10 \<rparr>]),
         (''keypoints'', Keypoints
            [\<lparr> kp_label = ''person'', kp_points = [(1 / 10, 1 / 5), (3 / 10, 2 / 5)],
               kp_confidence = 9 / 10 \<rparr>])],
        [(''detections'', Detections
            [\<lparr> det_label = ''person'', bounding_box = [1 / 2, 1 / 2, 1 / 2, 1 / 2], mask = None,
               det_confidence = 4 / 5 \<rparr>]),
         (''keypoints'', Keypoints
            [\<lparr> kp_label = ''person'', kp_points = [(3 / 5, 7 / 10), (4 / 5, 9 / 10)],
               kp_confidence = 4 / 5 \<rparr>])]] \<and>
   KeypointDetectorOutputProcessor_call (KeypointDetectorOutputProcessor_init [''person''] None None)
     [\<lparr> boxes = [(0, 0, 50, 50)], labels = [0], scores = [9 / 10],
        keypoints = [[[10, 20, 1], [30, 40, 1]]] \<rparr>,
      \<lparr> boxes = [(50, 50, 100, 100)], labels = [0], scores = [4 / 5],
        keypoints = [[[60, 70, 1], [80, 90, 1]]] \<rparr>]
     (100, 100) \<noteq>
   Inr [[(''detections'', Detections
            [\<lparr> det_label = ''person'', bounding_box = [0, 0, 1 / 2, 1 / 2], mask = None,
               det_confidence = 9 / 10 \<rparr>,
             \<lparr> det_label = ''person'', bounding_box = [1 / 2, 1 / 2, 1 / 2, 1 / 2], mask = None,
               det_confidence = 4 / 5 \<rparr>]),
         (''keypoints'', Keypoints
            [\<lparr> kp_label = ''person'', kp_points = [(1 / 10, 1 / 5), (3 / 10, 2 / 5)],
               kp_confidence = 9 / 10 \<rparr>,
             \<lparr> kp_label = ''person'', kp_points = [(3 / 5, 7 / 10), (4 / 5, 9 / 10)],
               kp_confidence = 4 / 5 \<rparr>])]]"
  by (simp add: KeypointDetectorOutputProcessor_call_def
      KeypointDetectorOutputProcessor_parse_detections_def KeypointDetectorOutputProcessor_init_def
      below_thresh_def normalize_box_def normalize_point_def py_index_def Let_def)

text \<open>
  Claim C1, amended. For every batch (with well-formed candidates), the result of the
  keypoint processor is a list with one mapping per input image, in batch order; the
  mapping of an image has the keys \<open>detections\<close>, \<open>keypoints\<close> and, when an edge list is
  configured, \<open>polylines\<close>, each holding the labels of the kept candidates of that image.
\<close>

theorem KeypointDetectorOutputProcessor_call_per_image:
  assumes "0 < width" and "0 < height"
    and "\<forall>out \<in> set output.
           \<forall>(box, l, s, kpts) \<in> set (zip (boxes out) (zip (labels out) (zip (scores out) (keypoints out)))).
             (case confidence_thresh self of None \<Rightarrow> True | Some t \<Rightarrow> t \<le> s) \<longrightarrow>
             0 \<le> l \<and> l < int (length (class_labels self)) \<and> (\<forall>p \<in> set kpts. 2 \<le> length p) \<and>
             (\<forall>es. edges self = Some es \<longrightarrow>
                (\<forall>e \<in> set es. \<forall>v \<in> set e. 0 \<le> v \<and> v < int (length kpts)))"
  shows "KeypointDetectorOutputProcessor_call self output (width, height) =
     Inr (map (\<lambda>out.
       let kept = filter (\<lambda>(box, l, s, kpts). case confidence_thresh self of None \<Rightarrow> True | Some t \<Rightarrow> t \<le> s)
                    (zip (boxes out) (zip (labels out) (zip (scores out) (keypoints out))));
           points = (\<lambda>kpts. map (\<lambda>p. (p ! 0 / of_int width, p ! 1 / of_int height)) kpts)
       in [(''detections'', Detections (map (\<lambda>((x1, y1, x2, y2), l, s, kpts).
               \<lparr> det_label = class_labels self ! nat l,
                 bounding_box = [x1 / of_int width, y1 / of_int height,
                                 (x2 - x1) / of_int width, (y2 - y1) / of_int height],
                 mask = None, det_confidence = s \<rparr>) kept)),
           (''keypoints'', Keypoints (map (\<lambda>(box, l, s, kpts).
               \<lparr> kp_label = class_labels self ! nat l, kp_points = points kpts,
                 kp_confidence = s \<rparr>) kept))] @
          (case edges self of
             None \<Rightarrow> []
           | Some es \<Rightarrow>
               [(''polylines'', Polylines (map (\<lambda>(box, l, s, kpts).
                   \<lparr> pl_points = map (map (\<lambda>v. points kpts ! nat v)) es,
                     pl_confidence = s, closed = False, filled = False \<rparr>) kept))])) output)"
  unfolding KeypointDetectorOutputProcessor_call_def
proof (rule mapM_Inr)
  fix out assume out: "out \<in> set output"
  let ?cands = "zip (boxes out) (zip (labels out) (zip (scores out) (keypoints out)))"
  have f: "(\<lambda>(box, l, s, kpts). case confidence_thresh self of None \<Rightarrow> True | Some t \<Rightarrow> t \<le> s) =
           (\<lambda>(box :: real \<times> real \<times> real \<times> real, l :: int, s, kpts :: real list list).
              \<not> below_thresh (confidence_thresh self) s)"
    by (simp add: below_thresh_iff fun_eq_iff)
  have ok: "\<forall>(box, l, s, kpts) \<in> set ?cands. \<not> below_thresh (confidence_thresh self) s \<longrightarrow>
             0 \<le> l \<and> l < int (length (class_labels self)) \<and> (\<forall>p \<in> set kpts. 2 \<le> length p) \<and>
             (\<forall>es. edges self = Some es \<longrightarrow>
                (\<forall>e \<in> set es. \<forall>v \<in> set e. 0 \<le> v \<and> v < int (length kpts)))"
    using assms(3) out unfolding below_thresh_iff by blast
  show "KeypointDetectorOutputProcessor_parse_detections self out (width, height) =
     Inr (let kept = filter (\<lambda>(box, l, s, kpts). case confidence_thresh self of None \<Rightarrow> True | Some t \<Rightarrow> t \<le> s)
                    ?cands;
           points = (\<lambda>kpts. map (\<lambda>p. (p ! 0 / of_int width, p ! 1 / of_int height)) kpts)
       in [(''detections'', Detections (map (\<lambda>((x1, y1, x2, y2), l, s, kpts).
               \<lparr> det_label = class_labels self ! nat l,
                 bounding_box = [x1 / of_int width, y1 / of_int height,
                                 (x2 - x1) / of_int width, (y2 - y1) / of_int height],
                 mask = None, det_confidence = s \<rparr>) kept)),
           (''keypoints'', Keypoints (map (\<lambda>(box, l, s, kpts).
               \<lparr> kp_label = class_labels self ! nat l, kp_points = points kpts,
                 kp_confidence = s \<rparr>) kept))] @
          (case edges self of
             None \<Rightarrow> []
           | Some es \<Rightarrow>
               [(''polylines'', Polylines (map (\<lambda>(box, l, s, kpts).
                   \<lparr> pl_points = map (map (\<lambda>v. points kpts ! nat v)) es,
                     pl_confidence = s, closed = False, filled = False \<rparr>) kept))]))"
    unfolding KeypointDetectorOutputProcessor_parse_detections_def f
    by (simp add: KeypointDetector_loop_Inr [OF ok] Let_def normalize_box_def split: option.splits)
qed

theorem KeypointDetectorOutputProcessor_call_per_image_witness:
  "KeypointDetectorOutputProcessor_call
     (KeypointDetectorOutputProcessor_init [''person''] (Some [[0, 1]]) (Some (1 / 2)))
     [\<lparr> boxes = [(0, 0, 50, 50), (0, 0, 10, 10)], labels = [0, 5], scores = [9 / 10, 3 / 10],
        keypoints = [[[10, 20, 1], [30, 40, 1]], [[1, 2, 0], [3, 4, 0]]] \<rparr>,
      \<lparr> boxes = [(50, 50, 100, 100)], labels = [0], scores = [4 / 5],
        keypoints = [[[60, 70, 1], [80, 90, 1]]] \<rparr>]
     (100, 100) =
   Inr [[(''detections'', Detections
            [\<lparr> det_label = ''person'', bounding_box = [0, 0, 1 / 2, 1 / 2], mask = None,
               det_confidence = 9 / 10 \<rparr>]),
         (''keypoints'', Keypoints
            [\<lparr> kp_label = ''person'', kp_points = [(1 / 10, 1 / 5), (3 / 10, 2 / 5)],
               kp_confidence = 9 / 10 \<rparr>]),
         (''polylines'', Polylines
            [\<lparr> pl_points = [[(1 / 10, 1 / 5), (3 / 10, 2 / 5)]], pl_confidence = 9 / 10,
               closed = False, filled = False \<rparr>])],
        [(''detections'', Detections
            [\<lparr> det_label = ''person'', bounding_box = [1 / 2, 1 / 2, 1 / 2, 1 / 2], mask = None,
               det_confidence = 4 / 5 \<rparr>]),
         (''keypoints'', Keypoints
            [\<lparr> kp_label = ''person'', kp_points = [(3 / 5, 7 / 10), (4 / 5, 9 / 10)],
               kp_confidence = 4 / 5 \<rparr>]),
         (''polylines'', Polylines
            [\<lparr> pl_points = [[(3 / 5, 7 / 10), (4 / 5, 9 / 10)]], pl_confidence = 4 / 5,
               closed = False, filled = False \<rparr>])]]"
  using KeypointDetectorOutputProcessor_call_per_image
    [of 100 100
      "[\<lparr> boxes = [(0, 0, 50, 50), (0, 0, 10, 10)], labels = [0, 5], scores = [9 / 10, 3 / 10],
          keypoints = [[[10, 20, 1], [30, 40, 1]], [[1, 2, 0], [3, 4, 0]]] \<rparr>,
        \<lparr> boxes = [(50, 50, 100, 100)], labels = [0], scores = [4 / 5],
          keypoints = [[[60, 70, 1], [80, 90, 1]]] \<rparr>]"
      "KeypointDetectorOutputProcessor_init [''person''] (Some [[0, 1]]) (Some (1 / 2))"]
  by (simp add: KeypointDetectorOutputProcessor_init_def)

section \<open>Properties of the classifier\<close>

lemma first_max_unique: "first_max xs a \<Longrightarrow> first_max xs b \<Longrightarrow> a = b"
  unfolding first_max_def by (metis leD linorder_neqE_nat)

lemma argmax_from_first_max:
  assumes "first_max pre best"
  shows "first_max (pre @ xs) (argmax_from xs (length pre) best (pre ! best))"
  using assms
proof (induction xs arbitrary: pre best)
  case Nil
  then show ?case by simp
next
  case (Cons x xs)
  show ?case
  proof (cases "pre ! best < x")
    case True
    have "first_max (pre @ [x]) (length pre)"
      unfolding first_max_def
    proof (intro conjI allI impI)
      show "length pre < length (pre @ [x])" by simp
    next
      fix j assume "j < length (pre @ [x])"
      then show "(pre @ [x]) ! j \<le> (pre @ [x]) ! length pre"
        using Cons.prems True unfolding first_max_def
        by (cases "j < length pre") (auto simp: nth_append less_Suc_eq intro: order_trans less_imp_le)
    next
      fix j assume "j < length pre"
      then show "(pre @ [x]) ! j < (pre @ [x]) ! length pre"
        using Cons.prems True unfolding first_max_def
        by (auto simp: nth_append intro: le_less_trans)
    qed
    from Cons.IH [OF this] show ?thesis using True by (simp add: nth_append)
  next
    case False
    have "first_max (pre @ [x]) best"
      using Cons.prems False unfolding first_max_def
      by (auto simp: nth_append less_Suc_eq not_less)
    moreover have b: "(pre @ [x]) ! best = pre ! best"
      using Cons.prems by (simp add: first_max_def nth_append)
    ultimately have "first_max (pre @ x # xs) (argmax_from xs (Suc (length pre)) best (pre ! best))"
      using Cons.IH [of "pre @ [x]" best] by simp
    then show ?thesis using False by simp
  qed
qed

lemma np_argmax_first_max:
  assumes "xs \<noteq> []"
  shows "\<exists>a. np_argmax xs = Inr a \<and> first_max xs a"
proof -
  obtain x rest where xs: "xs = x # rest" using assms by (cases xs) auto
  have "first_max [x] 0" by (simp add: first_max_def)
  from argmax_from_first_max [OF this, of rest]
  show ?thesis by (simp add: xs np_argmax_def)
qed

lemma np_argmax_empty: "isl (np_argmax [])"
  by (simp add: np_argmax_def)


lemma Max_first_max:
  assumes "first_max xs a"
  shows "Max (set xs) = xs ! a"
  using assms unfolding first_max_def
  by (intro Max_eqI) (auto simp: in_set_conv_nth)

lemma fround_in_range:
  assumes "0 < x" and "underflow fmt < x" and "x < overflow fmt"
  shows "fround fmt x = Fin x"
  using assms by (simp add: fround_def)

lemma foldl_fadd_Fin:
  assumes "0 \<le> acc" and "\<forall>x \<in> set xs. 0 < x \<and> underflow fmt < x"
    and "acc + sum_list xs < overflow fmt"
  shows "foldl (fadd fmt) (Fin acc) (map Fin xs) = Fin (acc + sum_list xs)"
  using assms
proof (induction xs arbitrary: acc)
  case Nil
  then show ?case by simp
next
  case (Cons x xs)
  have nn: "0 \<le> sum_list xs" using Cons.prems(2) by (intro sum_list_nonneg) (auto intro: less_imp_le)
  have x: "0 < x" "underflow fmt < x" using Cons.prems(2) by simp_all
  have "fround fmt (acc + x) = Fin (acc + x)"
    using Cons.prems(1,3) x nn by (intro fround_in_range) simp_all
  moreover have "foldl (fadd fmt) (Fin (acc + x)) (map Fin xs) = Fin (acc + x + sum_list xs)"
    using Cons.prems x by (intro Cons.IH) (simp_all add: add.assoc)
  ultimately show ?case by (simp add: add.assoc)
qed

lemma fold_fmax2_Fin: "fold fmax2 (map Fin xs) (Fin x) = Fin (fold max xs x)"
proof (induction xs arbitrary: x)
  case Nil
  then show ?case by simp
next
  case (Cons y ys)
  have "fmax2 (Fin y) (Fin x) = Fin (max y x)" by (simp add: fmax2_def max_def)
  then show ?case using Cons.IH [of "max y x"] by simp
qed

lemma np_max_Fin_first_max:
  assumes "first_max xs a"
  shows "np_max (map Fin xs) = Inr (Fin (xs ! a))"
proof -
  from assms obtain x rest where xs: "xs = x # rest" by (cases xs) (auto simp: first_max_def)
  have "fold max rest x = Max (set (x # rest))" by (rule Max.set_eq_fold [symmetric])
  also have "\<dots> = xs ! a" unfolding xs [symmetric] using assms by (rule Max_first_max)
  finally show ?thesis by (simp add: np_max_def xs fold_fmax2_Fin)
qed

lemma np_max_nonempty: "xs \<noteq> [] \<Longrightarrow> \<exists>v. np_max xs = Inr v"
  by (cases xs) (auto simp: np_max_def)

lemma sum_list_exp_pos:
  assumes "xs \<noteq> []"
  shows "0 < sum_list (map exp (xs :: real list))"
proof -
  obtain x rest where xs: "xs = x # rest" using assms by (cases xs) auto
  have "0 \<le> sum_list (map exp rest)" by (intro sum_list_nonneg) auto
  moreover have "0 < exp x" by simp
  ultimately show ?thesis unfolding xs by (simp add: add_pos_nonneg)
qed

lemma exp_le_sum_list:
  assumes "v \<in> set row"
  shows "exp v \<le> sum_list (map exp (row :: real list))"
  using assms by (intro member_le_sum_list) auto

text \<open>The softmax of a row when no exponential, sum or quotient leaves the range of the
  format.\<close>

lemma softmax_row_in_range:
  assumes "row \<noteq> []" and "1 < overflow fmt"
    and "sum_list (map exp row) < overflow fmt"
    and "\<forall>v \<in> set row. underflow fmt < exp v \<and> underflow fmt < exp v / sum_list (map exp row)"
  shows "softmax_row fmt row = map Fin (map (\<lambda>v. exp v / sum_list (map exp row)) row)"
proof -
  let ?S = "sum_list (map exp row)"
  have S: "0 < ?S" using assms(1) by (rule sum_list_exp_pos)
  have e: "fexp fmt v = Fin (exp v)" if "v \<in> set row" for v
  proof -
    have "exp v < overflow fmt" using exp_le_sum_list [OF that] assms(3) by simp
    then show ?thesis unfolding fexp_def using assms(4) that by (intro fround_in_range) simp_all
  qed
  then have exps: "map (fexp fmt) row = map Fin (map exp row)" by simp
  have sum: "np_sum fmt (map Fin (map exp row)) = Fin ?S"
    unfolding np_sum_def using assms(3,4)
    by (subst foldl_fadd_Fin) auto
  have q: "fdiv fmt (Fin (exp v)) (Fin ?S) = Fin (exp v / ?S)" if "v \<in> set row" for v
  proof -
    have "exp v / ?S \<le> 1" using exp_le_sum_list [OF that] S by simp
    then have "exp v / ?S < overflow fmt" using assms(2) by simp
    moreover have "0 < exp v / ?S" using S by simp
    ultimately have "fround fmt (exp v / ?S) = Fin (exp v / ?S)"
      using assms(4) that by (intro fround_in_range) simp_all
    then show ?thesis using S by simp
  qed
  show ?thesis
    unfolding softmax_row_def exps sum using q by simp
qed

lemma softmax_first_max:
  assumes "first_max row a"
  shows "first_max (map (\<lambda>v. exp v / sum_list (map exp row)) row) a"
proof -
  from assms have "row \<noteq> []" by (auto simp: first_max_def)
  then have S: "0 < sum_list (map exp row)" by (rule sum_list_exp_pos)
  show ?thesis
    using assms S unfolding first_max_def
    by (auto simp: divide_le_cancel divide_less_cancel)
qed

lemma Classifier_loop_Inr:
  assumes "\<forall>(p, s) \<in> set pairs. \<not> fbelow_thresh (confidence_thresh self) s \<longrightarrow>
             p < length (class_labels self)"
  shows "Classifier_loop self pairs acc =
           Inr (acc @ map (\<lambda>(p, s). if fbelow_thresh (confidence_thresh self) s then None
                                    else Some \<lparr> cls_label = class_labels self ! p,
                                                cls_confidence = s \<rparr>) pairs)"
  using assms
  by (induction pairs arbitrary: acc) (auto simp: py_index_nonneg)

lemma Classifier_loop_isl:
  assumes "(p, s) \<in> set pairs" and "\<not> fbelow_thresh (confidence_thresh self) s"
    and "length (class_labels self) \<le> p"
  shows "isl (Classifier_loop self pairs acc)"
  using assms
  by (induction pairs arbitrary: acc) (auto simp: py_index_outside split: sum.splits)

lemma ClassifierOutputProcessor_call_rows:
  assumes "\<forall>row \<in> set logits. row \<noteq> []"
  shows "\<exists>g sc. (\<forall>row \<in> set logits. first_max row (g row) \<and>
                    np_max (softmax_row fmt row) = Inr (sc row)) \<and>
           ClassifierOutputProcessor_call fmt self logits fs =
             Classifier_loop self (map (\<lambda>row. (g row, sc row)) logits) []"
proof -
  define g where "g row = argmax_from (tl row) 1 0 (hd row)" for row
  define sc where "sc row = (case np_max (softmax_row fmt row) of Inr v \<Rightarrow> v | Inl e \<Rightarrow> NaN)"
    for row
  have arg: "np_argmax row = Inr (g row)" and fm: "first_max row (g row)"
    and mx: "np_max (softmax_row fmt row) = Inr (sc row)"
    if "row \<in> set logits" for row
  proof -
    from that assms have ne: "row \<noteq> []" by blast
    then obtain x rest where row: "row = x # rest" by (cases row) auto
    show "np_argmax row = Inr (g row)" by (simp add: row np_argmax_def g_def)
    then show "first_max row (g row)"
      using np_argmax_first_max [OF ne] by auto
    have "softmax_row fmt row \<noteq> []" using ne by (simp add: softmax_row_def)
    from np_max_nonempty [OF this] show "np_max (softmax_row fmt row) = Inr (sc row)"
      by (auto simp: sc_def)
  qed
  have preds: "mapM np_argmax logits = Inr (map g logits)"
    using arg by (rule mapM_Inr)
  have odds: "map (\<lambda>row. map (\<lambda>v. fdiv fmt v (np_sum fmt row)) row) (map (map (fexp fmt)) logits) =
      map (softmax_row fmt) logits"
    by (simp add: softmax_row_def)
  have "mapM np_max (map (softmax_row fmt) logits) =
      Inr (map (\<lambda>r. case np_max r of Inr v \<Rightarrow> v | Inl e \<Rightarrow> NaN) (map (softmax_row fmt) logits))"
    using mx by (intro mapM_Inr) auto
  then have scores: "mapM np_max (map (softmax_row fmt) logits) = Inr (map sc logits)"
    by (simp add: sc_def comp_def)
  have z: "zip (map g logits) (map sc logits) = map (\<lambda>row. (g row, sc row)) logits"
    by (simp add: zip_map_map zip_same_conv_map)
  have "ClassifierOutputProcessor_call fmt self logits fs =
             Classifier_loop self (map (\<lambda>row. (g row, sc row)) logits) []"
    unfolding ClassifierOutputProcessor_call_def Let_def preds odds
    by (simp add: scores z)
  then show ?thesis using fm mx by blast
qed

text \<open>
  Claim C3, amended. Take an \<open>[N, M]\<close> logits matrix with \<open>M > 0\<close> columns and at least \<open>M\<close>
  class labels such that, in the format of the array, no exponential of a logit, no row sum
  of exponentials and no quotient of the two overflows or rounds to zero. Then the
  classifier returns a list of exactly \<open>N\<close> entries. With \<open>a\<close> the argmax of row \<open>i\<close> (the
  first position of its maximum) and \<open>conf = exp (logit a) / sum (exp logit)\<close> over the row,
  entry \<open>i\<close> is \<open>None\<close> when a confidence threshold is set and \<open>conf\<close> is below it, and
  otherwise the classification with label \<open>class_labels[a]\<close> and confidence \<open>conf\<close>.
\<close>

theorem ClassifierOutputProcessor_call_spec:
  assumes "0 < M" and "\<forall>row \<in> set logits. length row = M"
    and "M \<le> length (class_labels self)"
    and "1 < overflow fmt"
    and "\<forall>row \<in> set logits. sum_list (map exp row) < overflow fmt \<and>
           (\<forall>v \<in> set row. underflow fmt < exp v \<and>
                            underflow fmt < exp v / sum_list (map exp row))"
  shows "\<exists>preds. ClassifierOutputProcessor_call fmt self logits fs = Inr preds \<and>
           length preds = length logits \<and>
           (\<forall>i < length logits.
              \<exists>a < M. (\<forall>j < M. logits ! i ! j \<le> logits ! i ! a) \<and>
                      (\<forall>j < a. logits ! i ! j < logits ! i ! a) \<and>
                (let conf = exp (logits ! i ! a) / sum_list (map exp (logits ! i))
                 in preds ! i =
                      (if (case confidence_thresh self of None \<Rightarrow> False | Some t \<Rightarrow> conf < t)
                       then None
                       else Some \<lparr> cls_label = class_labels self ! a,
                                   cls_confidence = Fin conf \<rparr>)))"
proof -
  have ne: "\<forall>row \<in> set logits. row \<noteq> []" using assms(1,2) by auto
  from ClassifierOutputProcessor_call_rows [OF ne, of fmt self fs]
  obtain g sc where fm: "\<forall>row \<in> set logits. first_max row (g row)"
    and mx: "\<forall>row \<in> set logits. np_max (softmax_row fmt row) = Inr (sc row)"
    and call: "ClassifierOutputProcessor_call fmt self logits fs =
             Classifier_loop self (map (\<lambda>row. (g row, sc row)) logits) []"
    by blast
  have sc: "sc row = Fin (exp (row ! g row) / sum_list (map exp row))" if "row \<in> set logits" for row
  proof -
    have ne: "row \<noteq> []" using that ne by blast
    have "softmax_row fmt row = map Fin (map (\<lambda>v. exp v / sum_list (map exp row)) row)"
      using ne assms(4,5) that by (intro softmax_row_in_range) auto
    moreover have "first_max (map (\<lambda>v. exp v / sum_list (map exp row)) row) (g row)"
      using fm that by (intro softmax_first_max) blast
    ultimately have "np_max (softmax_row fmt row) =
        Inr (Fin (map (\<lambda>v. exp v / sum_list (map exp row)) row ! g row))"
      using np_max_Fin_first_max [of "map (\<lambda>v. exp v / sum_list (map exp row)) row" "g row"]
      by (simp only:)
    moreover have "g row < length row" using fm that by (auto simp: first_max_def)
    ultimately show ?thesis using mx that by simp
  qed
  let ?pred = "\<lambda>row. if fbelow_thresh (confidence_thresh self) (sc row) then None
                     else Some \<lparr> cls_label = class_labels self ! g row, cls_confidence = sc row \<rparr>"
  have ok: "\<forall>(p, s) \<in> set (map (\<lambda>row. (g row, sc row)) logits).
            \<not> fbelow_thresh (confidence_thresh self) s \<longrightarrow> p < length (class_labels self)"
    using fm assms(2,3) by (auto simp: first_max_def)
  have res: "ClassifierOutputProcessor_call fmt self logits fs = Inr (map ?pred logits)"
    unfolding call by (simp add: Classifier_loop_Inr [OF ok] comp_def)
  have each: "\<exists>a < M. (\<forall>j < M. logits ! i ! j \<le> logits ! i ! a) \<and>
                      (\<forall>j < a. logits ! i ! j < logits ! i ! a) \<and>
                (let conf = exp (logits ! i ! a) / sum_list (map exp (logits ! i))
                 in map ?pred logits ! i =
                      (if (case confidence_thresh self of None \<Rightarrow> False | Some t \<Rightarrow> conf < t)
                       then None
                       else Some \<lparr> cls_label = class_labels self ! a,
                                   cls_confidence = Fin conf \<rparr>))"
    if "i < length logits" for i
  proof -
    have row: "logits ! i \<in> set logits" using that by simp
    then have len: "length (logits ! i) = M" using assms(2) by blast
    have "first_max (logits ! i) (g (logits ! i))" using fm row by blast
    then have "g (logits ! i) < M" "\<forall>j < M. logits ! i ! j \<le> logits ! i ! g (logits ! i)"
      "\<forall>j < g (logits ! i). logits ! i ! j < logits ! i ! g (logits ! i)"
      unfolding first_max_def len by blast+
    moreover have "map ?pred logits ! i = ?pred (logits ! i)" using that by simp
    ultimately show ?thesis
      by (intro exI [of _ "g (logits ! i)"])
         (simp add: Let_def fbelow_thresh_def sc [OF row] split: option.splits)
  qed
  show ?thesis using res each by (intro exI [of _ "map ?pred logits"]) simp
qed


lemma exp_100_overflows: "(2::real) ^ 128 \<le> exp 100"
proof -
  have "(5 / 2 :: real) \<le> exp 1" using exp_lower_Taylor_quadratic [of "1::real"] by simp
  then have "(5 / 2 :: real) ^ 100 \<le> exp 1 ^ 100" by (intro power_mono) simp_all
  moreover have "exp 1 ^ 100 = exp (100::real)" using exp_of_nat_mult [of 100 "1::real"] by simp
  moreover have "(2::real) ^ 128 \<le> (5 / 2) ^ 100" by (simp add: field_simps)
  ultimately show ?thesis by linarith
qed

lemma exp_minus_200_underflows: "exp (- 200 :: real) \<le> 1 / 2 ^ 150"
proof -
  have "(2::real) \<le> exp 1" using exp_ge_add_one_self [of "1::real"] by simp
  then have "(2::real) ^ 200 \<le> exp 1 ^ 200" by (intro power_mono) simp_all
  moreover have "exp 1 ^ 200 = exp (200::real)" using exp_of_nat_mult [of 200 "1::real"] by simp
  moreover have "(2::real) ^ 150 \<le> 2 ^ 200" by simp
  ultimately have "(2::real) ^ 150 \<le> exp 200" by linarith
  then have "1 / exp (200::real) \<le> 1 / 2 ^ 150" by (intro divide_left_mono) simp_all
  then show ?thesis by (simp add: exp_minus inverse_eq_divide)
qed

lemma fexp_float32_examples:
  "fexp float32 100 = PInf" "fexp float32 0 = Fin 1" "fexp float32 (- 200) = Fin 0"
proof -
  show "fexp float32 100 = PInf"
    using exp_100_overflows by (simp add: fexp_def fround_def float32_def)
  show "fexp float32 0 = Fin 1" by (simp add: fexp_def fround_def float32_def)
  have small: "exp (- 200 :: real) \<le> 1 / 2 ^ 150" by (rule exp_minus_200_underflows)
  have "(1 / 2 ^ 150 :: real) < 2 ^ 128 - 2 ^ 103" by simp
  with small have a: "\<not> (2::real) ^ 128 - 2 ^ 103 \<le> exp (- 200)" by linarith
  have "(0::real) < exp (- 200)" by simp
  moreover have "- ((2::real) ^ 128 - 2 ^ 103) < 0" by simp
  ultimately have b: "\<not> exp (- 200 :: real) \<le> - (2 ^ 128 - 2 ^ 103)" by linarith
  have c: "\<bar>exp (- 200 :: real)\<bar> \<le> 1 / 2 ^ 150" using small by simp
  show "fexp float32 (- 200) = Fin 0"
    unfolding fexp_def fround_def float32_def using a b c by (simp del: exp_le_cancel_iff)
qed

text \<open>
  Claim C3, as stated, fails: the softmax is computed without any stabilisation, so the
  exponentials leave the range of \<^verbatim>\<open>float32\<close>. For the row \<open>[100, 0]\<close> the exponential of
  \<open>100\<close> is infinite, the quotient of the two infinities is NaN, and the classification
  carries the confidence NaN where the softmax probability is almost 1. For the row
  \<open>[-200, -200]\<close> both exponentials are zero, the quotients are NaN, the comparison of NaN
  with the threshold \<open>0.3\<close> is false, and again a classification with confidence NaN is
  returned, where the softmax probability is \<open>0.5\<close>.
\<close>

theorem ClassifierOutputProcessor_call_overflow_counterexample:
  "ClassifierOutputProcessor_call float32 (ClassifierOutputProcessor_init [''a'', ''b''] None)
     [[100, 0]] (224, 224) =
   Inr [Some \<lparr> cls_label = ''a'', cls_confidence = NaN \<rparr>] \<and>
   ClassifierOutputProcessor_call float32
     (ClassifierOutputProcessor_init [''a'', ''b''] (Some (3 / 10)))
     [[- 200, - 200]] (224, 224) =
   Inr [Some \<lparr> cls_label = ''a'', cls_confidence = NaN \<rparr>]"
proof -
  have z: "fround float32 0 = Fin 0" by (simp add: fround_def float32_def)
  have s1: "softmax_row float32 [100, 0] = [NaN, Fin 0]"
    by (simp add: softmax_row_def np_sum_def fexp_float32_examples)
  have s2: "softmax_row float32 [- 200, - 200] = [NaN, NaN]"
    by (simp add: softmax_row_def np_sum_def fexp_float32_examples z)
  have o1: "map (\<lambda>row. map (\<lambda>v. fdiv float32 v (np_sum float32 row)) row)
              (map (map (fexp float32)) [[100, 0]]) = [softmax_row float32 [100, 0]]"
    and o2: "map (\<lambda>row. map (\<lambda>v. fdiv float32 v (np_sum float32 row)) row)
              (map (map (fexp float32)) [[- 200, - 200]]) = [softmax_row float32 [- 200, - 200]]"
    by (simp_all add: softmax_row_def)
  show ?thesis
    unfolding ClassifierOutputProcessor_call_def Let_def o1 o2 s1 s2
    by (simp add: np_argmax_def np_max_def fmax2_def ClassifierOutputProcessor_init_def
        fbelow_thresh_def py_index_def)
qed

theorem ClassifierOutputProcessor_call_spec_witness:
  "\<exists>preds. ClassifierOutputProcessor_call float32
            (ClassifierOutputProcessor_init [''a'', ''b'', ''c''] (Some (1 / 2)))
            [[10, 0, 0], [0, 10, 0], [0, 0, 0]] (224, 224) = Inr preds \<and>
          length preds = 3 \<and>
          preds ! 0 = Some \<lparr> cls_label = ''a'', cls_confidence = Fin (exp 10 / (exp 10 + 2)) \<rparr> \<and>
          preds ! 1 = Some \<lparr> cls_label = ''b'', cls_confidence = Fin (exp 10 / (exp 10 + 2)) \<rparr> \<and>
          preds ! 2 = None"
proof -
  define P where "P = ClassifierOutputProcessor_init [''a'', ''b'', ''c''] (Some (1 / 2))"
  define logits :: "real list list" where "logits = [[10, 0, 0], [0, 10, 0], [0, 0, 0]]"
  have P: "class_labels P = [''a'', ''b'', ''c'']" "confidence_thresh P = Some (1 / 2)"
    by (simp_all add: P_def ClassifierOutputProcessor_init_def)
  have e10: "(11::real) \<le> exp 10" using exp_ge_add_one_self [of "10::real"] by simp
  have "exp 1 ^ 10 \<le> (3::real) ^ 10" using exp_le by (intro power_mono) simp_all
  moreover have "exp 1 ^ 10 = exp (10::real)" using exp_of_nat_mult [of 10 "1::real"] by simp
  ultimately have u10: "exp (10::real) \<le> 59049" by simp
  have tiny: "(1 / 2 ^ 150 :: real) < 1 / 59051"
    by (intro divide_strict_left_mono) simp_all
  have q1: "(1 / 59051 :: real) \<le> 1 / (exp 10 + 2)"
    using u10 e10 by (intro divide_left_mono) simp_all
  have q2: "(1 / 59051 :: real) \<le> 1 / 3" by simp
  have q3: "1 / (exp 10 + 2) \<le> exp 10 / (exp 10 + 2 :: real)"
    using e10 by (intro divide_right_mono) simp_all
  have h1: "(0::nat) < 3" by simp
  have h2: "\<forall>row \<in> set logits. length row = 3" by (simp add: logits_def)
  have h3: "3 \<le> length (class_labels P)" by (simp add: P)
  have h4: "1 < overflow float32" by (simp add: float32_def)
  have h5: "\<forall>row \<in> set logits. sum_list (map exp row) < overflow float32 \<and>
           (\<forall>v \<in> set row. underflow float32 < exp v \<and>
                            underflow float32 < exp v / sum_list (map exp row))"
    using u10 e10 tiny q1 q2 q3 by (simp add: logits_def float32_def)
  from ClassifierOutputProcessor_call_spec [OF h1 h2 h3 h4 h5, of "(224, 224)"]
  obtain preds where call: "ClassifierOutputProcessor_call float32 P logits (224, 224) = Inr preds"
    and len: "length preds = length logits"
    and each: "\<And>i. i < length logits \<Longrightarrow>
              \<exists>a < 3. (\<forall>j < 3. logits ! i ! j \<le> logits ! i ! a) \<and>
                      (\<forall>j < a. logits ! i ! j < logits ! i ! a) \<and>
                (let conf = exp (logits ! i ! a) / sum_list (map exp (logits ! i))
                 in preds ! i =
                      (if (case confidence_thresh P of None \<Rightarrow> False | Some t \<Rightarrow> conf < t)
                       then None
                       else Some \<lparr> cls_label = class_labels P ! a, cls_confidence = Fin conf \<rparr>))"
    by blast
  have three: "a = 0 \<or> a = 1 \<or> a = 2" if "a < 3" for a :: nat using that by arith
  have keep: "\<not> exp 10 / (exp 10 + 2) < (1 / 2 :: real)"
    using e10 by (simp add: field_simps)
  have p0: "preds ! 0 = Some \<lparr> cls_label = ''a'', cls_confidence = Fin (exp 10 / (exp 10 + 2)) \<rparr>"
  proof -
    from each [of 0] obtain a where a: "a < 3" "\<forall>j < 3. logits ! 0 ! j \<le> logits ! 0 ! a"
      and p: "let conf = exp (logits ! 0 ! a) / sum_list (map exp (logits ! 0))
                 in preds ! 0 =
                      (if (case confidence_thresh P of None \<Rightarrow> False | Some t \<Rightarrow> conf < t)
                       then None
                       else Some \<lparr> cls_label = class_labels P ! a, cls_confidence = Fin conf \<rparr>)"
      by (auto simp: logits_def)
    from a(2) have "logits ! 0 ! 0 \<le> logits ! 0 ! a" by simp
    then have "a = 0" using three [OF a(1)] by (auto simp: logits_def)
    then show ?thesis using p keep by (simp add: logits_def P Let_def)
  qed
  have p1: "preds ! 1 = Some \<lparr> cls_label = ''b'', cls_confidence = Fin (exp 10 / (exp 10 + 2)) \<rparr>"
  proof -
    from each [of 1] obtain a where a: "a < 3" "\<forall>j < 3. logits ! 1 ! j \<le> logits ! 1 ! a"
      and p: "let conf = exp (logits ! 1 ! a) / sum_list (map exp (logits ! 1))
                 in preds ! 1 =
                      (if (case confidence_thresh P of None \<Rightarrow> False | Some t \<Rightarrow> conf < t)
                       then None
                       else Some \<lparr> cls_label = class_labels P ! a, cls_confidence = Fin conf \<rparr>)"
      by (auto simp: logits_def)
    from a(2) have "logits ! 1 ! 1 \<le> logits ! 1 ! a" by simp
    then have "a = 1" using three [OF a(1)] by (auto simp: logits_def)
    then show ?thesis using p keep by (simp add: logits_def P Let_def add.commute)
  qed
  have p2: "preds ! 2 = None"
  proof -
    from each [of 2] obtain a where a: "a < 3" "\<forall>j < a. logits ! 2 ! j < logits ! 2 ! a"
      and p: "let conf = exp (logits ! 2 ! a) / sum_list (map exp (logits ! 2))
                 in preds ! 2 =
                      (if (case confidence_thresh P of None \<Rightarrow> False | Some t \<Rightarrow> conf < t)
                       then None
                       else Some \<lparr> cls_label = class_labels P ! a, cls_confidence = Fin conf \<rparr>)"
      by (auto simp: logits_def)
    have "a = 0"
    proof (rule ccontr)
      assume "a \<noteq> 0"
      then have "logits ! 2 ! 0 < logits ! 2 ! a" using a(2) by simp
      then show False using three [OF a(1)] by (auto simp: logits_def)
    qed
    then show ?thesis using p by (simp add: logits_def P Let_def)
  qed
  show ?thesis
    using call len p0 p1 p2 unfolding P_def logits_def by auto
qed


section \<open>Class indices outside the label list\<close>

lemma isl_case_sum: "isl x \<Longrightarrow> isl (case x of Inl e \<Rightarrow> Inl e | Inr y \<Rightarrow> f y)"
  by (cases x) auto

lemma ClassifierOutputProcessor_call_isl:
  assumes "i < length logits" and "first_max (logits ! i) a"
    and "np_max (softmax_row fmt (logits ! i)) = Inr s"
    and "\<not> fbelow_thresh (confidence_thresh self) s"
    and "length (class_labels self) \<le> a"
  shows "isl (ClassifierOutputProcessor_call fmt self logits fs)"
proof (cases "\<forall>row \<in> set logits. row \<noteq> []")
  case True
  from ClassifierOutputProcessor_call_rows [OF True, of fmt self fs]
  obtain g sc where fm: "\<forall>row \<in> set logits. first_max row (g row)"
    and mx: "\<forall>row \<in> set logits. np_max (softmax_row fmt row) = Inr (sc row)"
    and call: "ClassifierOutputProcessor_call fmt self logits fs =
             Classifier_loop self (map (\<lambda>row. (g row, sc row)) logits) []"
    by blast
  have row: "logits ! i \<in> set logits" using assms(1) by simp
  then have "g (logits ! i) = a" using fm assms(2) first_max_unique by blast
  moreover have "sc (logits ! i) = s" using mx row assms(3) by simp
  ultimately have "(a, s) \<in> set (map (\<lambda>row. (g row, sc row)) logits)"
    using row by force
  then show ?thesis unfolding call using assms(4,5) by (rule Classifier_loop_isl)
next
  case False
  then have "[] \<in> set logits" by auto
  then have "isl (mapM np_argmax logits)" using np_argmax_empty by (rule mapM_isl)
  then show ?thesis unfolding ClassifierOutputProcessor_call_def by (rule isl_case_sum)
qed

text \<open>
  Claim C2, amended. In each processor that maps class indices to labels, a candidate that
  passes the confidence filter and whose class index \<open>l\<close> lies outside \<open>[-n, n)\<close>, \<open>n\<close> the
  number of class labels, makes the call fail with an exception: no label is emitted for it
  and it is not skipped. For the classifier the index is the argmax \<open>a\<close> of a row, so the
  case is \<open>n \<le> a\<close>, and the confidence filter is applied to the score \<open>sc\<close> that the code
  computes for the row.
\<close>

theorem class_index_outside_range_raises:
  "(outD \<in> set outputD \<and>
    (boxD, lD, sD) \<in> set (zip (boxes outD) (zip (labels outD) (scores outD))) \<and>
    (case confidence_thresh selfD of None \<Rightarrow> True | Some t \<Rightarrow> t \<le> sD) \<and>
    (lD < - int (length (class_labels selfD)) \<or> int (length (class_labels selfD)) \<le> lD)
    \<longrightarrow> isl (DetectorOutputProcessor_call selfD outputD fs)) \<and>
   (outS \<in> set outputS \<and>
    (boxS, lS, sS, smS) \<in> set (zip (boxes outS) (zip (labels outS) (zip (scores outS) (masks outS)))) \<and>
    (case confidence_thresh selfS of None \<Rightarrow> True | Some t \<Rightarrow> t \<le> sS) \<and>
    (lS < - int (length (class_labels selfS)) \<or> int (length (class_labels selfS)) \<le> lS)
    \<longrightarrow> isl (InstanceSegmenterOutputProcessor_call selfS outputS fs)) \<and>
   (outK \<in> set outputK \<and>
    (boxK, lK, sK, kptsK) \<in> set (zip (boxes outK) (zip (labels outK) (zip (scores outK) (keypoints outK)))) \<and>
    (case confidence_thresh selfK of None \<Rightarrow> True | Some t \<Rightarrow> t \<le> sK) \<and>
    (lK < - int (length (class_labels selfK)) \<or> int (length (class_labels selfK)) \<le> lK)
    \<longrightarrow> isl (KeypointDetectorOutputProcessor_call selfK outputK fs)) \<and>
   (i < length logits \<and> a < length (logits ! i) \<and>
    (\<forall>j < length (logits ! i). logits ! i ! j \<le> logits ! i ! a) \<and>
    (\<forall>j < a. logits ! i ! j < logits ! i ! a) \<and>
    np_max (softmax_row fmt (logits ! i)) = Inr sc \<and>
    (case confidence_thresh selfC of None \<Rightarrow> True | Some t \<Rightarrow> \<not> fless sc t) \<and>
    length (class_labels selfC) \<le> a
    \<longrightarrow> isl (ClassifierOutputProcessor_call fmt selfC logits fs))"
proof (intro conjI impI)
  assume h: "outD \<in> set outputD \<and>
    (boxD, lD, sD) \<in> set (zip (boxes outD) (zip (labels outD) (scores outD))) \<and>
    (case confidence_thresh selfD of None \<Rightarrow> True | Some t \<Rightarrow> t \<le> sD) \<and>
    (lD < - int (length (class_labels selfD)) \<or> int (length (class_labels selfD)) \<le> lD)"
  then have "\<not> below_thresh (confidence_thresh selfD) sD" by (simp add: below_thresh_iff)
  with h have "isl (Detector_loop selfD fs (zip (boxes outD) (zip (labels outD) (scores outD))) [])"
    by (intro Detector_loop_isl [of boxD lD sD]) simp_all
  then have "isl (DetectorOutputProcessor_parse_detections selfD outD fs)"
    unfolding DetectorOutputProcessor_parse_detections_def by (rule isl_case_sum)
  with h show "isl (DetectorOutputProcessor_call selfD outputD fs)"
    unfolding DetectorOutputProcessor_call_def by (intro mapM_isl [of outD]) simp_all
next
  assume h: "outS \<in> set outputS \<and>
    (boxS, lS, sS, smS) \<in> set (zip (boxes outS) (zip (labels outS) (zip (scores outS) (masks outS)))) \<and>
    (case confidence_thresh selfS of None \<Rightarrow> True | Some t \<Rightarrow> t \<le> sS) \<and>
    (lS < - int (length (class_labels selfS)) \<or> int (length (class_labels selfS)) \<le> lS)"
  then have "\<not> below_thresh (confidence_thresh selfS) sS" by (simp add: below_thresh_iff)
  with h have "isl (InstanceSegmenter_loop selfS fs
      (zip (boxes outS) (zip (labels outS) (zip (scores outS) (masks outS)))) [])"
    by (intro InstanceSegmenter_loop_isl [of boxS lS sS smS]) simp_all
  then have "isl (InstanceSegmenterOutputProcessor_parse_detections selfS outS fs)"
    unfolding InstanceSegmenterOutputProcessor_parse_detections_def by (rule isl_case_sum)
  with h show "isl (InstanceSegmenterOutputProcessor_call selfS outputS fs)"
    unfolding InstanceSegmenterOutputProcessor_call_def by (intro mapM_isl [of outS]) simp_all
next
  assume h: "outK \<in> set outputK \<and>
    (boxK, lK, sK, kptsK) \<in> set (zip (boxes outK) (zip (labels outK) (zip (scores outK) (keypoints outK)))) \<and>
    (case confidence_thresh selfK of None \<Rightarrow> True | Some t \<Rightarrow> t \<le> sK) \<and>
    (lK < - int (length (class_labels selfK)) \<or> int (length (class_labels selfK)) \<le> lK)"
  then have "\<not> below_thresh (confidence_thresh selfK) sK" by (simp add: below_thresh_iff)
  with h have "isl (KeypointDetector_loop selfK fs
      (zip (boxes outK) (zip (labels outK) (zip (scores outK) (keypoints outK)))) ([], [], []))"
    by (intro KeypointDetector_loop_isl [of boxK lK sK kptsK]) simp_all
  then have "isl (KeypointDetectorOutputProcessor_parse_detections selfK outK fs)"
    unfolding KeypointDetectorOutputProcessor_parse_detections_def by (rule isl_case_sum)
  with h show "isl (KeypointDetectorOutputProcessor_call selfK outputK fs)"
    unfolding KeypointDetectorOutputProcessor_call_def by (intro mapM_isl [of outK]) simp_all
next
  assume h: "i < length logits \<and> a < length (logits ! i) \<and>
    (\<forall>j < length (logits ! i). logits ! i ! j \<le> logits ! i ! a) \<and>
    (\<forall>j < a. logits ! i ! j < logits ! i ! a) \<and>
    np_max (softmax_row fmt (logits ! i)) = Inr sc \<and>
    (case confidence_thresh selfC of None \<Rightarrow> True | Some t \<Rightarrow> \<not> fless sc t) \<and>
    length (class_labels selfC) \<le> a"
  then have fm: "first_max (logits ! i) a" by (simp add: first_max_def)
  from h have "\<not> fbelow_thresh (confidence_thresh selfC) sc"
    by (simp add: fbelow_thresh_def split: option.splits)
  with h fm show "isl (ClassifierOutputProcessor_call fmt selfC logits fs)"
    by (intro ClassifierOutputProcessor_call_isl [of i logits a fmt sc]) simp_all
qed

text \<open>
  Claim C2, as stated, fails in two ways. The class labels are a Python list, so the index
  \<open>-1\<close>, outside \<open>[0, 2)\<close>, selects the last label \<open>dog\<close> and a detection is emitted. And a
  candidate below the confidence threshold is dropped before its label is looked up, so
  the index \<open>7\<close> of such a candidate raises nothing.
\<close>

theorem class_index_negative_or_filtered_counterexample:
  "DetectorOutputProcessor_call (DetectorOutputProcessor_init [''cat'', ''dog''] None)
     [\<lparr> boxes = [(10, 20, 30, 60)], labels = [- 1], scores = [9 / 10] \<rparr>] (100, 200) =
   Inr [Detections [\<lparr> det_label = ''dog'', bounding_box = [1 / 10, 1 / 10, 1 / 5, 1 / 5],
                      mask = None, det_confidence = 9 / 10 \<rparr>]] \<and>
   DetectorOutputProcessor_call (DetectorOutputProcessor_init [''cat'', ''dog''] (Some (1 / 2)))
     [\<lparr> boxes = [(10, 20, 30, 60)], labels = [7], scores = [3 / 10] \<rparr>] (100, 200) =
   Inr [Detections []]"
  by (simp add: DetectorOutputProcessor_call_def DetectorOutputProcessor_parse_detections_def
      DetectorOutputProcessor_init_def below_thresh_def normalize_box_def py_index_def Let_def)


theorem class_index_outside_range_raises_witness:
  "isl (DetectorOutputProcessor_call (DetectorOutputProcessor_init [''cat'', ''dog''] None)
          [\<lparr> boxes = [(10, 20, 30, 60)], labels = [2], scores = [9 / 10] \<rparr>] (100, 200)) \<and>
   isl (InstanceSegmenterOutputProcessor_call
          (InstanceSegmenterOutputProcessor_init [''cat''] None None)
          [\<lparr> boxes = [(0, 0, 1, 1)], labels = [1], scores = [9 / 10], masks = [[[[1]]]] \<rparr>]
          (100, 200)) \<and>
   isl (KeypointDetectorOutputProcessor_call
          (KeypointDetectorOutputProcessor_init [''person''] None None)
          [\<lparr> boxes = [(0, 0, 1, 1)], labels = [- 2], scores = [9 / 10],
             keypoints = [[[1, 2]]] \<rparr>] (100, 200)) \<and>
   isl (ClassifierOutputProcessor_call float32 (ClassifierOutputProcessor_init [''a''] None)
          [[0, 1]] (100, 200))"
proof -
  define logits :: "real list list" where "logits = [[0, 1]]"
  obtain sc where sc: "np_max (softmax_row float32 (logits ! 0)) = Inr sc"
    using np_max_nonempty [of "softmax_row float32 (logits ! 0)"]
    by (auto simp: logits_def softmax_row_def)
  have c: "(0::nat) < length logits \<and> 1 < length (logits ! 0) \<and>
    (\<forall>j < length (logits ! 0). logits ! 0 ! j \<le> logits ! 0 ! 1) \<and>
    (\<forall>j < 1. logits ! 0 ! j < logits ! 0 ! 1) \<and>
    np_max (softmax_row float32 (logits ! 0)) = Inr sc \<and>
    (case confidence_thresh (ClassifierOutputProcessor_init [''a''] None) of None \<Rightarrow> True
     | Some t \<Rightarrow> \<not> fless sc t) \<and>
    length (class_labels (ClassifierOutputProcessor_init [''a''] None)) \<le> 1"
    using sc by (auto simp: logits_def ClassifierOutputProcessor_init_def less_Suc_eq)
  show ?thesis
    using class_index_outside_range_raises
      [where selfD = "DetectorOutputProcessor_init [''cat'', ''dog''] None"
        and outputD = "[\<lparr> boxes = [(10, 20, 30, 60)], labels = [2], scores = [9 / 10] \<rparr>]"
        and outD = "\<lparr> boxes = [(10, 20, 30, 60)], labels = [2], scores = [9 / 10] \<rparr>"
        and boxD = "(10, 20, 30, 60)" and lD = 2 and sD = "9 / 10"
        and selfS = "InstanceSegmenterOutputProcessor_init [''cat''] None None"
        and outputS = "[\<lparr> boxes = [(0, 0, 1, 1)], labels = [1], scores = [9 / 10],
                          masks = [[[[1]]]] \<rparr>]"
        and outS = "\<lparr> boxes = [(0, 0, 1, 1)], labels = [1], scores = [9 / 10],
                          masks = [[[[1]]]] \<rparr>"
        and boxS = "(0, 0, 1, 1)" and lS = 1 and sS = "9 / 10" and smS = "[[[1]]]"
        and selfK = "KeypointDetectorOutputProcessor_init [''person''] None None"
        and outputK = "[\<lparr> boxes = [(0, 0, 1, 1)], labels = [- 2], scores = [9 / 10],
                          keypoints = [[[1, 2]]] \<rparr>]"
        and outK = "\<lparr> boxes = [(0, 0, 1, 1)], labels = [- 2], scores = [9 / 10],
                          keypoints = [[[1, 2]]] \<rparr>"
        and boxK = "(0, 0, 1, 1)" and lK = "- 2" and sK = "9 / 10" and kptsK = "[[1, 2]]"
        and selfC = "ClassifierOutputProcessor_init [''a''] None"
        and logits = logits and i = 0 and a = 1 and fs = "(100, 200)"
        and fmt = float32 and sc = sc]
      c
    unfolding logits_def
    by (simp add: DetectorOutputProcessor_init_def InstanceSegmenterOutputProcessor_init_def
        KeypointDetectorOutputProcessor_init_def)
qed


section \<open>Properties of the semantic segmenter\<close>

lemma argmax_classes_Inr:
  assumes "img \<noteq> []"
  shows "\<exists>m. argmax_classes img = Inr m \<and> length m = length (img ! 0) \<and>
           (\<forall>y < length (img ! 0). length (m ! y) = length (img ! 0 ! y) \<and>
              (\<forall>x < length (img ! 0 ! y). first_max (map (\<lambda>c. c ! y ! x) img) (m ! y ! x)))"
proof -
  obtain c0 rest where img: "img = c0 # rest" using assms by (cases img) auto
  define col where "col y x = map (\<lambda>c. c ! y ! x) img" for y x :: nat
  define a where "a y x = argmax_from (tl (col y x)) 1 0 (hd (col y x))" for y x
  have ne: "col y x \<noteq> []" for y x by (simp add: col_def img)
  have arg: "np_argmax (col y x) = Inr (a y x)" for y x
    using ne [of y x] by (cases "col y x") (auto simp: np_argmax_def a_def)
  have fm: "first_max (col y x) (a y x)" for y x
    using np_argmax_first_max [OF ne [of y x]] arg [of y x] by auto
  have row: "mapM (\<lambda>x. np_argmax (map (\<lambda>c. c ! y ! x) img)) [0..<length (c0 ! y)] =
      Inr (map (a y) [0..<length (c0 ! y)])" for y
    using arg by (intro mapM_Inr) (simp add: col_def)
  have "mapM (\<lambda>y. mapM (\<lambda>x. np_argmax (map (\<lambda>c. c ! y ! x) img)) [0..<length (c0 ! y)])
          [0..<length c0] =
      Inr (map (\<lambda>y. map (a y) [0..<length (c0 ! y)]) [0..<length c0])"
    by (rule mapM_Inr) (rule row)
  then have res: "argmax_classes img =
      Inr (map (\<lambda>y. map (a y) [0..<length (c0 ! y)]) [0..<length c0])"
    by (simp add: argmax_classes_def img)
  show ?thesis
    unfolding res using fm by (simp add: img col_def)
qed

lemma argmax_classes_empty: "isl (argmax_classes [])"
  by (simp add: argmax_classes_def)

text \<open>
  Claim C7. For an \<open>[N, M, H, W]\<close> tensor of scores with \<open>M > 0\<close>, the semantic segmenter
  returns exactly \<open>N\<close> segmentations, each carrying only a mask; the mask of image \<open>i\<close> is an
  \<open>[H, W]\<close> array whose entry at a pixel is the argmax over the \<open>M\<close> classes of the scores at
  that pixel (the first class with the largest score), with no threshold applied. When
  \<open>M = 2\<close> and the class-1 score exceeds the class-0 score at every pixel, the mask is all 1.
\<close>

theorem SegmenterOutputProcessor_call_spec:
  assumes "0 < M"
    and "\<forall>img \<in> set out. length img = M \<and>
           (\<forall>c \<in> set img. length c = H \<and> (\<forall>r \<in> set c. length r = W))"
  shows "\<exists>segs. SegmenterOutputProcessor_call cl out fs = Inr segs \<and> length segs = length out \<and>
           (\<forall>i < length out.
              length (seg_mask (segs ! i)) = H \<and>
              (\<forall>y < H. length (seg_mask (segs ! i) ! y) = W \<and>
                 (\<forall>x < W. let a = seg_mask (segs ! i) ! y ! x
                           in a < M \<and>
                              (\<forall>c < M. out ! i ! c ! y ! x \<le> out ! i ! a ! y ! x) \<and>
                              (\<forall>c < a. out ! i ! c ! y ! x < out ! i ! a ! y ! x))) \<and>
              (M = 2 \<and> (\<forall>y < H. \<forall>x < W. out ! i ! 0 ! y ! x < out ! i ! 1 ! y ! x) \<longrightarrow>
                 seg_mask (segs ! i) = replicate H (replicate W 1)))"
proof -
  define m where "m img = (case argmax_classes img of Inr v \<Rightarrow> v | Inl e \<Rightarrow> [])" for img
  have per: "argmax_classes img = Inr (m img) \<and> length (m img) = H \<and>
      (\<forall>y < H. length (m img ! y) = W \<and>
         (\<forall>x < W. m img ! y ! x < M \<and>
             (\<forall>c < M. img ! c ! y ! x \<le> img ! (m img ! y ! x) ! y ! x) \<and>
             (\<forall>c < m img ! y ! x. img ! c ! y ! x < img ! (m img ! y ! x) ! y ! x)))"
    if "img \<in> set out" for img
  proof -
    from that assms have len: "length img = M" and ne: "img \<noteq> []" by auto
    have c0: "img ! 0 \<in> set img" using ne by simp
    then have H: "length (img ! 0) = H" using assms(2) that by blast
    have W: "length (img ! 0 ! y) = W" if "y < H" for y
    proof -
      have "img ! 0 ! y \<in> set (img ! 0)" using that H by simp
      then show ?thesis using assms(2) \<open>img \<in> set out\<close> c0 by blast
    qed
    from argmax_classes_Inr [OF ne] obtain v where v: "argmax_classes img = Inr v"
      and vl: "length v = length (img ! 0)"
      and vy: "\<forall>y < length (img ! 0). length (v ! y) = length (img ! 0 ! y) \<and>
              (\<forall>x < length (img ! 0 ! y). first_max (map (\<lambda>c. c ! y ! x) img) (v ! y ! x))"
      by blast
    have mv: "m img = v" by (simp add: m_def v)
    have px: "v ! y ! x < M \<and>
             (\<forall>c < M. img ! c ! y ! x \<le> img ! (v ! y ! x) ! y ! x) \<and>
             (\<forall>c < v ! y ! x. img ! c ! y ! x < img ! (v ! y ! x) ! y ! x)"
      if "y < H" "x < W" for y x
    proof -
      have "first_max (map (\<lambda>c. c ! y ! x) img) (v ! y ! x)"
        using vy that H W [OF that(1)] by simp
      then have a0: "v ! y ! x < length (map (\<lambda>c. c ! y ! x) img)"
        and le: "\<forall>j < length (map (\<lambda>c. c ! y ! x) img).
                 map (\<lambda>c. c ! y ! x) img ! j \<le> map (\<lambda>c. c ! y ! x) img ! (v ! y ! x)"
        and lt: "\<forall>j < v ! y ! x.
                 map (\<lambda>c. c ! y ! x) img ! j < map (\<lambda>c. c ! y ! x) img ! (v ! y ! x)"
        unfolding first_max_def by blast+
      have a: "v ! y ! x < M" using a0 len by simp
      have "img ! c ! y ! x \<le> img ! (v ! y ! x) ! y ! x" if "c < M" for c
      proof -
        have "map (\<lambda>c. c ! y ! x) img ! c \<le> map (\<lambda>c. c ! y ! x) img ! (v ! y ! x)"
          using le that len by simp
        then show ?thesis using that a len by simp
      qed
      moreover have "img ! c ! y ! x < img ! (v ! y ! x) ! y ! x" if "c < v ! y ! x" for c
      proof -
        have "map (\<lambda>c. c ! y ! x) img ! c < map (\<lambda>c. c ! y ! x) img ! (v ! y ! x)"
          using lt that by simp
        moreover have "c < M" using that a by simp
        ultimately show ?thesis using a len by simp
      qed
      ultimately show ?thesis using a by blast
    qed
    show ?thesis
      unfolding mv using v vl vy H W px by simp
  qed
  have all: "mapM argmax_classes out = Inr (map m out)"
    using per by (intro mapM_Inr) blast
  have res: "SegmenterOutputProcessor_call cl out fs = Inr (map (\<lambda>img. \<lparr> seg_mask = m img \<rparr>) out)"
    by (simp add: SegmenterOutputProcessor_call_def all comp_def)
  have each: "length (m (out ! i)) = H \<and>
              (\<forall>y < H. length (m (out ! i) ! y) = W \<and>
                 (\<forall>x < W. let a = m (out ! i) ! y ! x
                           in a < M \<and>
                              (\<forall>c < M. out ! i ! c ! y ! x \<le> out ! i ! a ! y ! x) \<and>
                              (\<forall>c < a. out ! i ! c ! y ! x < out ! i ! a ! y ! x))) \<and>
              (M = 2 \<and> (\<forall>y < H. \<forall>x < W. out ! i ! 0 ! y ! x < out ! i ! 1 ! y ! x) \<longrightarrow>
                 m (out ! i) = replicate H (replicate W 1))"
    if "i < length out" for i
  proof -
    have mem: "out ! i \<in> set out" using that by simp
    note p = per [OF mem]
    have one: "m (out ! i) = replicate H (replicate W 1)"
      if two: "M = 2" and gt: "\<forall>y < H. \<forall>x < W. out ! i ! 0 ! y ! x < out ! i ! 1 ! y ! x"
    proof (rule nth_equalityI)
      show "length (m (out ! i)) = length (replicate H (replicate W (1::nat)))"
        using p by simp
    next
      fix y assume "y < length (m (out ! i))"
      then have y: "y < H" using p by simp
      have "m (out ! i) ! y = replicate W 1"
      proof (rule nth_equalityI)
        show "length (m (out ! i) ! y) = length (replicate W (1::nat))" using p y by simp
      next
        fix x assume "x < length (m (out ! i) ! y)"
        then have x: "x < W" using p y by simp
        have a: "m (out ! i) ! y ! x < 2"
          and le: "\<forall>c < 2. out ! i ! c ! y ! x \<le> out ! i ! (m (out ! i) ! y ! x) ! y ! x"
          using p y x two by auto
        have "m (out ! i) ! y ! x \<noteq> 0"
        proof
          assume z: "m (out ! i) ! y ! x = 0"
          from le have "out ! i ! 1 ! y ! x \<le> out ! i ! (m (out ! i) ! y ! x) ! y ! x" by simp
          then show False using gt y x unfolding z by (simp add: not_le [symmetric])
        qed
        then have "m (out ! i) ! y ! x = 1" using a by arith
        then show "m (out ! i) ! y ! x = replicate W 1 ! x" using x by simp
      qed
      then show "m (out ! i) ! y = replicate H (replicate W 1) ! y" using y by simp
    qed
    show ?thesis using p one by (simp add: Let_def)
  qed
  show ?thesis
    using res each by (intro exI [of _ "map (\<lambda>img. \<lparr> seg_mask = m img \<rparr>) out"]) simp
qed

theorem SegmenterOutputProcessor_call_spec_witness:
  "\<exists>segs. SegmenterOutputProcessor_call [''background'', ''cat'']
            [[[[1 / 10, 1 / 5]], [[9 / 10, 4 / 5]]]] (2, 1) = Inr segs \<and>
          length segs = 1 \<and> seg_mask (segs ! 0) = [[1, 1]]"
proof -
  define out :: "real list list list list" where "out = [[[[1 / 10, 1 / 5]], [[9 / 10, 4 / 5]]]]"
  have h1: "(0::nat) < 2" by simp
  have h2: "\<forall>img \<in> set out. length img = 2 \<and>
           (\<forall>c \<in> set img. length c = 1 \<and> (\<forall>r \<in> set c. length r = 2))"
    by (simp add: out_def)
  from SegmenterOutputProcessor_call_spec [OF h1 h2, of "[''background'', ''cat'']" "(2, 1)"]
  obtain segs where call: "SegmenterOutputProcessor_call [''background'', ''cat''] out (2, 1) = Inr segs"
    and len: "length segs = length out"
    and ex: "(2::nat) = 2 \<and> (\<forall>y < 1. \<forall>x < 2. out ! 0 ! 0 ! y ! x < out ! 0 ! 1 ! y ! x) \<longrightarrow>
                 seg_mask (segs ! 0) = replicate 1 (replicate 2 1)"
    by (auto simp: out_def)
  have "\<forall>y < 1. \<forall>x < 2. out ! 0 ! 0 ! y ! x < out ! 0 ! 1 ! y ! x"
    by (auto simp: out_def less_Suc_eq numeral_2_eq_2)
  with ex have "seg_mask (segs ! 0) = [[1, 1]]" by (simp add: numeral_2_eq_2)
  then show ?thesis using call len unfolding out_def by auto
qed


section \<open>Properties of model construction\<close>

lemma TorchModel_build_transforms_mismatch:
  assumes "truthy (image_mean cfg) \<noteq> truthy (image_std cfg)"
  shows "TorchModel_build_transforms cfg =
           Inl (ValueError ''Both `image_mean` and `image_std` must be provided'')"
  using assms by (auto simp: TorchModel_build_transforms_def Let_def)

lemma TorchModel_get_class_labels_missing:
  assumes "\<not> truthy (labels_string cfg)" and "\<not> truthy (labels_path cfg)"
  shows "TorchModel_get_class_labels load_labels cfg =
           Inl (ValueError ''Either `labels_string` or `labels_path` must be specified'')"
  using assms by (simp add: TorchModel_get_class_labels_def)

text \<open>
  Claim C8. Constructing the model fails with a \<^verbatim>\<open>ValueError\<close>, whatever loading the model
  and building the output processor would do, when exactly one of \<^verbatim>\<open>image_mean\<close> and
  \<^verbatim>\<open>image_std\<close> is given, and when neither \<^verbatim>\<open>labels_string\<close> nor \<^verbatim>\<open>labels_path\<close> is
  given. An option is given when the code's test of it succeeds, that is when it is
  present and not empty. With a mean but no standard deviation the error is the one of the
  transforms as soon as the class labels resolve; otherwise reading the labels has failed.
\<close>

theorem TorchModel_init_configuration_errors:
  "(truthy (image_mean cfg) \<noteq> truthy (image_std cfg) \<longrightarrow>
      isl ((TorchModel_init load_labels load_model build_output_processor cfg
          :: error + ('i, 'm, 'op) TorchModel)) \<and>
      (\<forall>cl. TorchModel_get_class_labels load_labels cfg = Inr cl \<longrightarrow>
         (TorchModel_init load_labels load_model build_output_processor cfg
          :: error + ('i, 'm, 'op) TorchModel) =
           Inl (ValueError ''Both `image_mean` and `image_std` must be provided''))) \<and>
   (\<not> truthy (labels_string cfg) \<and> \<not> truthy (labels_path cfg) \<longrightarrow>
      (TorchModel_init load_labels load_model build_output_processor cfg
          :: error + ('i, 'm, 'op) TorchModel) =
        Inl (ValueError ''Either `labels_string` or `labels_path` must be specified''))"
proof (intro conjI impI allI)
  assume m: "truthy (image_mean cfg) \<noteq> truthy (image_std cfg)"
  show "isl ((TorchModel_init load_labels load_model build_output_processor cfg
          :: error + ('i, 'm, 'op) TorchModel))"
    unfolding TorchModel_init_def
    by (cases "TorchModel_get_class_labels load_labels cfg")
       (simp_all add: TorchModel_build_transforms_mismatch [OF m])
next
  fix cl
  assume m: "truthy (image_mean cfg) \<noteq> truthy (image_std cfg)"
    and cl: "TorchModel_get_class_labels load_labels cfg = Inr cl"
  show "(TorchModel_init load_labels load_model build_output_processor cfg
          :: error + ('i, 'm, 'op) TorchModel) =
           Inl (ValueError ''Both `image_mean` and `image_std` must be provided'')"
    unfolding TorchModel_init_def
    by (simp add: cl TorchModel_build_transforms_mismatch [OF m])
next
  assume "\<not> truthy (labels_string cfg) \<and> \<not> truthy (labels_path cfg)"
  then show "(TorchModel_init load_labels load_model build_output_processor cfg
          :: error + ('i, 'm, 'op) TorchModel) =
        Inl (ValueError ''Either `labels_string` or `labels_path` must be specified'')"
    unfolding TorchModel_init_def
    by (simp add: TorchModel_get_class_labels_missing)
qed

theorem TorchModel_init_configuration_errors_witness:
  "(TorchModel_init (\<lambda>path. Inr []) (\<lambda>c. Inr ()) (\<lambda>c cl. Inr ())
      \<lparr> entrypoint_fcn = ''torchvision.models.resnet50'',
        output_processor_cls = ''fiftyone.utils.torch.ClassifierOutputProcessor'',
        labels_string = Some ''cat,dog'', labels_path = None, use_half_precision = None,
        image_min_size = None, image_min_dim = Some 224, image_size = None, image_dim = None,
        image_mean = Some [485 / 1000, 456 / 1000, 406 / 1000], image_std = None \<rparr>
      :: error + (unit, unit, unit) TorchModel) =
     Inl (ValueError ''Both `image_mean` and `image_std` must be provided'') \<and>
   (TorchModel_init (\<lambda>path. Inr []) (\<lambda>c. Inr ()) (\<lambda>c cl. Inr ())
      \<lparr> entrypoint_fcn = ''torchvision.models.resnet50'',
        output_processor_cls = ''fiftyone.utils.torch.ClassifierOutputProcessor'',
        labels_string = None, labels_path = None, use_half_precision = None,
        image_min_size = None, image_min_dim = Some 224, image_size = None, image_dim = None,
        image_mean = None, image_std = None \<rparr>
      :: error + (unit, unit, unit) TorchModel) =
     Inl (ValueError ''Either `labels_string` or `labels_path` must be specified'')"
proof -
  have cl: "TorchModel_get_class_labels (\<lambda>path. Inr [])
      \<lparr> entrypoint_fcn = ''torchvision.models.resnet50'',
        output_processor_cls = ''fiftyone.utils.torch.ClassifierOutputProcessor'',
        labels_string = Some ''cat,dog'', labels_path = None, use_half_precision = None,
        image_min_size = None, image_min_dim = Some 224, image_size = None, image_dim = None,
        image_mean = Some [485 / 1000, 456 / 1000, 406 / 1000], image_std = None \<rparr> =
      Inr [''cat'', ''dog'']"
    by (simp add: TorchModel_get_class_labels_def truthy_def)
  show ?thesis
    using TorchModel_init_configuration_errors
      [where 'i = unit and 'm = unit and 'op = unit
        and load_labels = "\<lambda>path. Inr []" and load_model = "\<lambda>c. Inr ()"
        and build_output_processor = "\<lambda>c cl. Inr ()"
        and cfg = "\<lparr> entrypoint_fcn = ''torchvision.models.resnet50'',
        output_processor_cls = ''fiftyone.utils.torch.ClassifierOutputProcessor'',
        labels_string = Some ''cat,dog'', labels_path = None, use_half_precision = None,
        image_min_size = None, image_min_dim = Some 224, image_size = None, image_dim = None,
        image_mean = Some [485 / 1000, 456 / 1000, 406 / 1000], image_std = None \<rparr>"]
      TorchModel_init_configuration_errors
      [where 'i = unit and 'm = unit and 'op = unit
        and load_labels = "\<lambda>path. Inr []" and load_model = "\<lambda>c. Inr ()"
        and build_output_processor = "\<lambda>c cl. Inr ()"
        and cfg = "\<lparr> entrypoint_fcn = ''torchvision.models.resnet50'',
        output_processor_cls = ''fiftyone.utils.torch.ClassifierOutputProcessor'',
        labels_string = None, labels_path = None, use_half_precision = None,
        image_min_size = None, image_min_dim = Some 224, image_size = None, image_dim = None,
        image_mean = None, image_std = None \<rparr>"]
      cl
    by (simp add: truthy_def)
qed

text \<open>A complete configuration constructs the model.\<close>

lemma TorchModel_init_example:
  "(TorchModel_init (\<lambda>path. Inr []) (\<lambda>c. Inr ()) (\<lambda>c cl. Inr ())
      \<lparr> entrypoint_fcn = ''f'', output_processor_cls = ''p'',
        labels_string = Some ''cat,dog'', labels_path = None, use_half_precision = None,
        image_min_size = None, image_min_dim = Some 224, image_size = None, image_dim = None,
        image_mean = Some [1 / 2], image_std = Some [1 / 4] \<rparr>
      :: error + (unit, unit, unit) TorchModel) =
   Inr \<lparr> config = \<lparr> entrypoint_fcn = ''f'', output_processor_cls = ''p'',
        labels_string = Some ''cat,dog'', labels_path = None, use_half_precision = None,
        image_min_size = None, image_min_dim = Some 224, image_size = None, image_dim = None,
        image_mean = Some [1 / 2], image_std = Some [1 / 4] \<rparr>,
         model_class_labels = [''cat'', ''dog''], num_classes = 2,
         transforms = [ToPILImage, MinResizeT \<lparr> min_output_size = [224, 224], interpolation = None \<rparr>,
                       ToTensor, Normalize [1 / 2] [1 / 4]],
         model = (), output_processor = () \<rparr>"
  by (simp add: TorchModel_init_def TorchModel_get_class_labels_def
      TorchModel_build_transforms_def MinResize_init_def truthy_def truthy_num_def Let_def)

end
